theory Spec2Isabelle
  imports Complex_Main "HOL-Library.Sublist"
begin

section \<open>Values exchanged with the provider and the store\<close>

text \<open>
  Instants (\<^verbatim>\<open>datetime\<close> values, all UTC-anchored) are whole seconds since the epoch;
  \<^verbatim>\<open>timedelta(days=n)\<close> is \<open>n * 86400\<close>.  A Python \<^verbatim>\<open>float\<close> is a real number or
  the not-a-number value, the one float the code tests for (\<^verbatim>\<open>pd.notna\<close>, \<^verbatim>\<open>dropna\<close>).
\<close>

type_synonym instant = int

datatype exn = Exn string

datatype pyfloat = Fin real | NaN

definition notna :: "pyfloat \<Rightarrow> bool" where
  "notna x = (x \<noteq> NaN)"

text \<open>
  The provider's payloads are dynamically typed.  The jobs look at a value only through
  \<^verbatim>\<open>x is None\<close>, its truth value, \<^verbatim>\<open>str(x)\<close>, \<^verbatim>\<open>float(x)\<close> (which may raise),
  \<^verbatim>\<open>pd.to_numeric(x, errors="coerce")\<close> (not-a-number when \<open>x\<close> is not numeric) and
  \<^verbatim>\<open>pd.to_datetime(x, utc=True, errors="coerce").floor("s")\<close> (\<open>None\<close> is \<^verbatim>\<open>NaT\<close>);
  a value is the record of these observations.
\<close>

record pyobj =
  is_none :: bool
  truthy :: bool
  str_of :: string
  float_of :: "exn + pyfloat"
  to_numeric :: pyfloat
  to_datetime :: "instant option"

text \<open>The literals \<^verbatim>\<open>0.0\<close> and \<^verbatim>\<open>0\<close> that \<^verbatim>\<open>normalize_download\<close> fills missing columns with.\<close>

definition float_zero :: pyobj where
  "float_zero = \<lparr>is_none = False, truthy = False, str_of = ''0.0'', float_of = Inr (Fin 0),
     to_numeric = Fin 0, to_datetime = None\<rparr>"

definition int_zero :: pyobj where
  "int_zero = \<lparr>is_none = False, truthy = False, str_of = ''0'', float_of = Inr (Fin 0),
     to_numeric = Fin 0, to_datetime = None\<rparr>"

subsection \<open>Strings\<close>

text \<open>\<^verbatim>\<open>str.lower\<close> and \<^verbatim>\<open>str.strip\<close> on ASCII text.\<close>

definition lower_char :: "char \<Rightarrow> char" where
  "lower_char c =
     (case map_of (zip ''ABCDEFGHIJKLMNOPQRSTUVWXYZ'' ''abcdefghijklmnopqrstuvwxyz'') c of
        Some d \<Rightarrow> d
      | None \<Rightarrow> c)"

definition lower :: "string \<Rightarrow> string" where
  "lower s = map lower_char s"

definition is_space :: "char \<Rightarrow> bool" where
  "is_space c = (c \<in> set [CHR '' '', CHR 0x09, CHR 0x0A, CHR 0x0B, CHR 0x0C, CHR 0x0D,
     CHR 0x1C, CHR 0x1D, CHR 0x1E, CHR 0x1F])"

definition strip :: "string \<Rightarrow> string" where
  "strip s = rev (dropWhile is_space (rev (dropWhile is_space s)))"

fun join :: "string \<Rightarrow> string list \<Rightarrow> string" where
  "join sep [] = []"
| "join sep [x] = x"
| "join sep (x # y # ys) = x @ sep @ join sep (y # ys)"

subsection \<open>Data frames\<close>

text \<open>
  A \<^verbatim>\<open>DataFrame\<close>: the name of its index, its column names, and its rows, each with
  its index value and its cells by column name.
\<close>

record frow =
  idx :: pyobj
  cells :: "string \<Rightarrow> pyobj"

record frame =
  index_name :: "string option"
  columns :: "string list"
  rows :: "frow list"

definition empty :: "frame \<Rightarrow> bool" where
  "empty df = (rows df = [] \<or> columns df = [])"

text \<open>\<^verbatim>\<open>df.reset_index()\<close>: the index becomes the first column, named \<^verbatim>\<open>index\<close> when it
  has no name.  The result is the list of column names and the rows as cell lookups.\<close>

definition reset_index :: "frame \<Rightarrow> string list \<times> (string \<Rightarrow> pyobj) list" where
  "reset_index df =
     (let n = (case index_name df of None \<Rightarrow> ''index'' | Some s \<Rightarrow> s)
      in (n # columns df, map (\<lambda>r. (cells r)(n := idx r)) (rows df)))"

section \<open>The store\<close>

text \<open>Canonical rows are the tuples the jobs build, in the order of their \<^verbatim>\<open>column_names\<close>.\<close>

type_synonym dim_row = "string \<times> string \<times> string \<times> string \<times> pyfloat \<times> instant \<times> instant"
type_synonym member_row = "instant \<times> string \<times> string \<times> string \<times> string \<times> string \<times> instant"
type_synonym price_rec =
  "instant \<times> string \<times> string \<times> pyfloat \<times> pyfloat \<times> pyfloat \<times> pyfloat \<times> pyfloat \<times> int \<times> string \<times> instant"
type_synonym cap_row = "instant \<times> string \<times> pyfloat \<times> string \<times> string \<times> instant"

record state_row =
  source :: string
  target :: string
  key :: string
  last_ts :: "instant option"
  last_asof_date :: "instant option"
  updated_at :: int

datatype request =
    Sector string
  | Industry string
  | Ticker string
  | Download string int string

datatype message =
    No_industries string
  | Unexpected_columns string "string list"
  | Sector_failed string exn
  | Industry_failed string exn
  | Ticker_failed string exn

text \<open>
  What a run does to the outside: a request to the provider, a printed line, an insert
  into one of the five tables.  The store is its history of inserts (every table is
  append-only for the jobs); the provider requests and printed lines are kept in the
  same history so that the order of effects can be stated.
\<close>

datatype event =
    Fetched request
  | Printed message
  | Inserted_state state_row
  | Inserted_dim "dim_row list"
  | Inserted_membership "member_row list"
  | Inserted_prices "price_rec list"
  | Inserted_market_cap "cap_row list"

text \<open>
  Modelled from the spec: the DDL of \<^verbatim>\<open>finance_yf.ingest_state\<close> is not in the sources;
  \<^verbatim>\<open>set_state\<close> does not send \<^verbatim>\<open>updated_at\<close>, the store fills it in.  The spec calls it
  the write time that resolves the most recent state row, over an ordered sequence of
  immutable state events: the store stamps each state row with its clock and the clock
  then moves on.
\<close>

record world =
  events :: "event list"
  clock :: int

definition ingest_state :: "world \<Rightarrow> state_row list" where
  "ingest_state w = concat (map (\<lambda>e. case e of Inserted_state r \<Rightarrow> [r] | _ \<Rightarrow> []) (events w))"

definition dim_industry :: "world \<Rightarrow> dim_row list" where
  "dim_industry w = concat (map (\<lambda>e. case e of Inserted_dim rs \<Rightarrow> rs | _ \<Rightarrow> []) (events w))"

definition industry_membership :: "world \<Rightarrow> member_row list" where
  "industry_membership w =
     concat (map (\<lambda>e. case e of Inserted_membership rs \<Rightarrow> rs | _ \<Rightarrow> []) (events w))"

definition fact_stock_prices :: "world \<Rightarrow> price_rec list" where
  "fact_stock_prices w =
     concat (map (\<lambda>e. case e of Inserted_prices rs \<Rightarrow> rs | _ \<Rightarrow> []) (events w))"


definition emit :: "event list \<Rightarrow> world \<Rightarrow> world" where
  "emit es w = w\<lparr>events := events w @ es\<rparr>"

subsection \<open>common.py\<close>

text \<open>
  \<^verbatim>\<open>SELECT last_ts, last_asof_date FROM finance_yf.ingest_state WHERE source=.. AND
  target=.. AND key=.. ORDER BY updated_at DESC LIMIT 1\<close>, then
  \<^verbatim>\<open>r[0] if r else (None, None)\<close>.  The sort is stable: among rows of equal
  \<^verbatim>\<open>updated_at\<close>, where SQL leaves the order open, the one inserted first comes first.
\<close>

definition state_rows_of :: "world \<Rightarrow> string \<Rightarrow> string \<Rightarrow> string \<Rightarrow> state_row list" where
  "state_rows_of w src tgt k =
     filter (\<lambda>r. source r = src \<and> target r = tgt \<and> key r = k) (ingest_state w)"

definition get_state :: "world \<Rightarrow> string \<Rightarrow> string \<Rightarrow> string \<Rightarrow> instant option \<times> instant option" where
  "get_state w src tgt k =
     (case sort_key (\<lambda>r. - updated_at r) (state_rows_of w src tgt k) of
        [] \<Rightarrow> (None, None)
      | r # _ \<Rightarrow> (last_ts r, last_asof_date r))"

definition set_state ::
  "world \<Rightarrow> string \<Rightarrow> string \<Rightarrow> string \<Rightarrow> instant option \<Rightarrow> instant option \<Rightarrow> world" where
  "set_state w src tgt k lts lasof =
     w\<lparr>events := events w @
          [Inserted_state \<lparr>source = src, target = tgt, key = k, last_ts = lts,
             last_asof_date = lasof, updated_at = clock w\<rparr>],
       clock := clock w + 1\<rparr>"


text \<open>The row that \<^verbatim>\<open>ORDER BY updated_at DESC LIMIT 1\<close> selects, if any.\<close>

definition latest :: "state_row list \<Rightarrow> state_row option" where
  "latest rs = (case sort_key (\<lambda>r. - updated_at r) rs of [] \<Rightarrow> None | r # _ \<Rightarrow> Some r)"

section \<open>The provider\<close>

text \<open>
  The answers of the external provider during one run, as a function of the request:
  \<^verbatim>\<open>yf.Sector(k).industries\<close>, \<^verbatim>\<open>yf.Industry(k).top_companies\<close>, \<^verbatim>\<open>yf.Ticker(t).info\<close>
  and \<^verbatim>\<open>yf.download(tickers=.., start=.., interval=..)\<close>.  Each may raise; the first
  three may return \<^verbatim>\<open>None\<close>.
\<close>

datatype raw = No_frame | Multi "(string \<times> frame) list" | Flat frame

record provider =
  sector_industries :: "string \<Rightarrow> exn + frame option"
  industry_top_companies :: "string \<Rightarrow> exn + frame option"
  ticker_info :: "string \<Rightarrow> exn + (string \<rightharpoonup> pyobj) option"
  download :: "string \<Rightarrow> int \<Rightarrow> string \<Rightarrow> exn + raw"

text \<open>\<^verbatim>\<open>now.replace(hour=0, minute=0, second=0)\<close>\<close>

definition start_of_day :: "instant \<Rightarrow> instant" where
  "start_of_day t = t - t mod 86400"

text \<open>\<^verbatim>\<open>asof_date or ingested_at.replace(hour=0, minute=0, second=0)\<close>\<close>

definition asof_or_today :: "instant option \<Rightarrow> instant \<Rightarrow> instant" where
  "asof_or_today asof_date ingested_at =
     (case asof_date of Some a \<Rightarrow> a | None \<Rightarrow> start_of_day ingested_at)"

section \<open>ingest\_dim\_industry.py\<close>

definition DEFAULT_SECTORS :: "string list" where
  "DEFAULT_SECTORS = [''basic-materials'', ''communication-services'', ''consumer-cyclical'',
     ''consumer-defensive'', ''energy'', ''financial-services'', ''healthcare'', ''industrials'',
     ''real-estate'', ''technology'', ''utilities'']"

text \<open>The loop over \<^verbatim>\<open>df.columns\<close> that locates the name, symbol and weight columns
  (a later match replaces an earlier one).\<close>

definition locate_columns :: "string list \<Rightarrow> string option \<times> string option \<times> string option" where
  "locate_columns cols =
     foldl (\<lambda>(name_col, symbol_col, weight_col) c.
              let lc = strip (lower c) in
              if lc = ''name'' then (Some c, symbol_col, weight_col)
              else if lc = ''symbol'' then (name_col, Some c, weight_col)
              else if lc \<in> set [''market weight'', ''market_weight'', ''weight'']
                then (name_col, symbol_col, Some c)
              else (name_col, symbol_col, weight_col))
       (None, None, None) cols"

text \<open>\<^verbatim>\<open>try: market_weight = float(r[weight_col])  except Exception: market_weight = 0.0\<close>\<close>

definition market_weight_of :: "pyobj \<Rightarrow> pyfloat" where
  "market_weight_of v = (case float_of v of Inl e \<Rightarrow> Fin 0 | Inr x \<Rightarrow> x)"

text \<open>The body of \<^verbatim>\<open>for _, r in df.iterrows()\<close>: the rows appended for one row of the frame.\<close>

definition dim_industry_row ::
  "string \<Rightarrow> instant \<Rightarrow> instant \<Rightarrow> string \<Rightarrow> string \<Rightarrow> string \<Rightarrow> string \<Rightarrow> (string \<Rightarrow> pyobj)
     \<Rightarrow> dim_row list" where
  "dim_industry_row sector_key asof ingested_at industry_key_col name_col symbol_col weight_col r =
     (let industry_key = strip (str_of (r industry_key_col));
          industry_name = strip (str_of (r name_col));
          symbol = strip (str_of (r symbol_col));
          market_weight = market_weight_of (r weight_col)
      in if industry_key = [] \<or> industry_key = ''nan'' then []
         else [(sector_key, industry_key, industry_name, symbol, market_weight, asof, ingested_at)])"

text \<open>The body of \<^verbatim>\<open>for sector_key in sectors\<close>, with its \<^verbatim>\<open>try\<close>/\<^verbatim>\<open>except\<close>: what it
  requests and prints, and the rows it appends.\<close>

definition dim_industry_sector ::
  "provider \<Rightarrow> instant \<Rightarrow> instant \<Rightarrow> string \<Rightarrow> event list \<times> dim_row list" where
  "dim_industry_sector prov asof ingested_at sector_key =
     (case sector_industries prov sector_key of
        Inl e \<Rightarrow> ([Fetched (Sector sector_key), Printed (Sector_failed sector_key e)], [])
      | Inr None \<Rightarrow> ([Fetched (Sector sector_key), Printed (No_industries sector_key)], [])
      | Inr (Some df) \<Rightarrow>
          if empty df then ([Fetched (Sector sector_key), Printed (No_industries sector_key)], [])
          else
            (let (cols, rs) = reset_index df;
                 industry_key_col = (if ''key'' \<in> set cols then ''key'' else hd cols)
             in case locate_columns cols of
                  (Some name_col, Some symbol_col, Some weight_col) \<Rightarrow>
                    ([Fetched (Sector sector_key)],
                     concat (map (dim_industry_row sector_key asof ingested_at industry_key_col
                                    name_col symbol_col weight_col) rs))
                | _ \<Rightarrow>
                    ([Fetched (Sector sector_key), Printed (Unexpected_columns sector_key cols)],
                     [])))"

definition ingest_dim_industry ::
  "provider \<Rightarrow> instant \<Rightarrow> world \<Rightarrow> string list \<Rightarrow> instant option \<Rightarrow> bool \<Rightarrow> nat \<times> world" where
  "ingest_dim_industry prov now w sectors asof_date force =
     (let ingested_at = now;
          asof = asof_or_today asof_date ingested_at;
          sectors = (if sectors = [] then DEFAULT_SECTORS else sectors)
      in if \<not> force \<and>
            (case snd (get_state w ''yfinance'' ''dim_industry'' ''ALL'') of
               Some last_asof \<Rightarrow> last_asof \<ge> asof
             | None \<Rightarrow> False)
         then (0, w)
         else
           (let results = map (dim_industry_sector prov asof ingested_at) sectors;
                rs = concat (map snd results);
                w1 = emit (concat (map fst results)) w;
                w2 = (if rs \<noteq> [] then emit [Inserted_dim rs] w1 else w1);
                w3 = set_state w2 ''yfinance'' ''dim_industry'' ''ALL'' None (Some asof)
            in (length rs, w3)))"

section \<open>ingest\_industry\_membership.py\<close>

text \<open>
  \<^verbatim>\<open>SELECT sector_key, industry_key, argMax(industry_name, asof_date) FROM
  finance_yf.dim_industry GROUP BY sector_key, industry_key\<close>.  SQL leaves the order of
  the groups open; here they come in the order of their last row.
\<close>

definition dim_query :: "world \<Rightarrow> (string \<times> string \<times> string) list" where
  "dim_query w =
     (let tbl = dim_industry w;
          groups = remdups (map (\<lambda>(sk, ik, nm, sy, mw, a, ia). (sk, ik)) tbl)
      in map (\<lambda>(sk, ik).
                (sk, ik,
                 (case sort_key (\<lambda>(sk', ik', nm, sy, mw, a, ia). - a)
                         (filter (\<lambda>(sk', ik', nm, sy, mw, a, ia). sk' = sk \<and> ik' = ik) tbl) of
                    [] \<Rightarrow> []
                  | (sk', ik', nm, sy, mw, a, ia) # _ \<Rightarrow> nm)))
           groups)"

text \<open>\<^verbatim>\<open>for cand in cands: if cand in cols: col = top.columns[cols.index(cand)]; break\<close>
  where \<^verbatim>\<open>cols\<close> are the lower-cased column names.\<close>

definition find_column :: "string list \<Rightarrow> string list \<Rightarrow> string option" where
  "find_column cands cols =
     (case filter (\<lambda>cand. cand \<in> set (map lower cols)) cands of
        [] \<Rightarrow> None
      | cand # _ \<Rightarrow> find (\<lambda>c. lower c = cand) cols)"

definition membership_row ::
  "instant \<Rightarrow> instant \<Rightarrow> string \<Rightarrow> string \<Rightarrow> string \<Rightarrow> string option \<Rightarrow> (string \<Rightarrow> pyobj)
     \<Rightarrow> member_row list" where
  "membership_row asof ingested_at sector_key industry_key sym_col name_col r =
     (let ticker = strip (str_of (r sym_col))
      in if ticker = [] \<or> ticker = ''nan'' then []
         else
           (let tname = (case name_col of
                           None \<Rightarrow> []
                         | Some nc \<Rightarrow> if nc = [] then [] else strip (str_of (r nc)))
            in [(asof, sector_key, industry_key, ticker, tname, ''yfinance_top_companies'',
                 ingested_at)]))"

text \<open>The body of \<^verbatim>\<open>for sector_key, industry_key, industry_name in dim\<close>.\<close>

definition membership_industry ::
  "provider \<Rightarrow> instant \<Rightarrow> instant \<Rightarrow> string \<times> string \<times> string \<Rightarrow> event list \<times> member_row list" where
  "membership_industry prov asof ingested_at g =
     (case g of (sector_key, industry_key, industry_name) \<Rightarrow>
      (case industry_top_companies prov industry_key of
         Inl e \<Rightarrow> ([Fetched (Industry industry_key), Printed (Industry_failed industry_key e)], [])
       | Inr None \<Rightarrow> ([Fetched (Industry industry_key)], [])
       | Inr (Some top_companies) \<Rightarrow>
           if empty top_companies then ([Fetched (Industry industry_key)], [])
           else
             (let cols0 = columns top_companies;
                  rs0 = map cells (rows top_companies);
                  (cols, rs, sym_col) =
                    (case find_column [''symbol'', ''ticker''] cols0 of
                       Some c \<Rightarrow> (cols0, rs0, Some c)
                     | None \<Rightarrow>
                         (case index_name top_companies of
                            None \<Rightarrow> (cols0, rs0, None)
                          | Some n \<Rightarrow>
                              if n \<noteq> [] \<and> sublist ''symbol'' (lower n)
                              then (let (cols1, rs1) = reset_index top_companies
                                    in (cols1, rs1, find_column [''symbol'', ''ticker''] cols1))
                              else (cols0, rs0, None)))
              in case sym_col of
                   None \<Rightarrow> ([Fetched (Industry industry_key)], [])
                 | Some sc \<Rightarrow>
                     (let name_col = find_column [''name'', ''longname'', ''shortname''] cols
                      in ([Fetched (Industry industry_key)],
                          concat (map (membership_row asof ingested_at sector_key industry_key
                                         sc name_col) rs))))))"

definition ingest_membership ::
  "provider \<Rightarrow> instant \<Rightarrow> world \<Rightarrow> instant option \<Rightarrow> bool \<Rightarrow> nat \<times> world" where
  "ingest_membership prov now w asof_date force =
     (let ingested_at = now;
          asof = asof_or_today asof_date ingested_at
      in if \<not> force \<and>
            (case snd (get_state w ''yfinance'' ''industry_membership'' ''ALL'') of
               Some last_asof \<Rightarrow> last_asof \<ge> asof
             | None \<Rightarrow> False)
         then (0, w)
         else
           (let dim = dim_query w;
                results = map (membership_industry prov asof ingested_at) dim;
                rs = concat (map snd results);
                w1 = emit (concat (map fst results)) w;
                w2 = (if rs \<noteq> [] then emit [Inserted_membership rs] w1 else w1);
                w3 = set_state w2 ''yfinance'' ''industry_membership'' ''ALL'' None (Some asof)
            in (length rs, w3)))"

section \<open>ingest\_fact\_market\_cap.py\<close>

text \<open>
  \<^verbatim>\<open>SELECT DISTINCT ticker FROM finance_yf.industry_membership WHERE asof_date =
  (SELECT max(asof_date) FROM finance_yf.industry_membership)\<close>
\<close>

definition get_latest_membership_tickers :: "world \<Rightarrow> string list" where
  "get_latest_membership_tickers w =
     (let tbl = industry_membership w
      in if tbl = [] then []
         else remdups (map (\<lambda>(a, sk, ik, t, n, s, ia). t)
                         (filter (\<lambda>r. fst r = Max (set (map fst tbl))) tbl)))"

text \<open>The body of \<^verbatim>\<open>for tkr in tickers\<close>, on the store, the batch and the row count.\<close>

definition market_cap_ticker ::
  "provider \<Rightarrow> instant \<Rightarrow> instant \<Rightarrow> bool \<Rightarrow> string \<Rightarrow> world \<times> cap_row list \<times> nat
     \<Rightarrow> world \<times> cap_row list \<times> nat" where
  "market_cap_ticker prov asof ingested_at force tkr0 acc =
     (case acc of (w, batch, total_rows) \<Rightarrow>
      (let tkr = strip tkr0
       in if tkr = [] \<or> tkr = ''nan'' then acc
          else if \<not> force \<and>
                  (case snd (get_state w ''yfinance'' ''fact_market_cap'' tkr) of
                     Some last_asof \<Rightarrow> last_asof \<ge> asof
                   | None \<Rightarrow> False)
          then acc
          else
            (let w1 = emit [Fetched (Ticker tkr)] w
             in case ticker_info prov tkr of
                  Inl e \<Rightarrow> (emit [Printed (Ticker_failed tkr e)] w1, batch, total_rows)
                | Inr info0 \<Rightarrow>
                    (let info = (case info0 of None \<Rightarrow> Map.empty | Some d \<Rightarrow> d);
                         mc = info ''marketCap'';
                         cur = (case info ''currency'' of
                                  None \<Rightarrow> []
                                | Some c \<Rightarrow> if truthy c then str_of c else [])
                     in case mc of
                          None \<Rightarrow> (w1, batch, total_rows)
                        | Some m \<Rightarrow>
                            if is_none m then (w1, batch, total_rows)
                            else
                              (case float_of m of
                                 Inl e \<Rightarrow>
                                   (emit [Printed (Ticker_failed tkr e)] w1, batch, total_rows)
                               | Inr x \<Rightarrow>
                                   (set_state w1 ''yfinance'' ''fact_market_cap'' tkr None
                                      (Some asof),
                                    batch @ [(asof, tkr, x, cur, ''yfinance_info'', ingested_at)],
                                    total_rows + 1))))))"

definition ingest_market_cap ::
  "provider \<Rightarrow> instant \<Rightarrow> world \<Rightarrow> string list \<Rightarrow> instant option \<Rightarrow> bool \<Rightarrow> nat \<times> world" where
  "ingest_market_cap prov now w tickers asof_date force =
     (let ingested_at = now;
          asof = asof_or_today asof_date ingested_at;
          tickers = (if tickers = [] then get_latest_membership_tickers w else tickers)
      in case fold (market_cap_ticker prov asof ingested_at force) tickers (w, [], 0) of
           (w1, batch, total_rows) \<Rightarrow>
             (total_rows, if batch \<noteq> [] then emit [Inserted_market_cap batch] w1 else w1))"

section \<open>ingest\_fact\_stock\_prices.py\<close>

text \<open>A row of a ticker's frame before the numeric clean-up: \<^verbatim>\<open>ts\<close>, \<^verbatim>\<open>ticker\<close>,
  \<^verbatim>\<open>interval\<close>, then the cells \<^verbatim>\<open>Open\<close>, \<^verbatim>\<open>High\<close>, \<^verbatim>\<open>Low\<close>, \<^verbatim>\<open>Close\<close>, \<^verbatim>\<open>Adj_Close\<close>,
  \<^verbatim>\<open>Volume\<close>.\<close>

type_synonym part_row =
  "instant \<times> string \<times> string \<times> pyobj \<times> pyobj \<times> pyobj \<times> pyobj \<times> pyobj \<times> pyobj"

text \<open>A row of the frame \<^verbatim>\<open>normalize_download\<close> returns.\<close>

record norm_row =
  r_ts :: instant
  r_ticker :: string
  r_interval :: string
  r_open :: pyfloat
  r_high :: pyfloat
  r_low :: pyfloat
  r_close :: pyfloat
  r_adj_close :: pyfloat
  r_volume :: int

text \<open>\<^verbatim>\<open>df is None or df.empty\<close>: a frame is empty when it has no row or no column.\<close>

definition raw_empty :: "raw \<Rightarrow> bool" where
  "raw_empty df =
     (case df of
        No_frame \<Rightarrow> True
      | Flat f \<Rightarrow> empty f
      | Multi gs \<Rightarrow> list_all (\<lambda>(t, f). columns f = []) gs \<or> list_all (\<lambda>(t, f). rows f = []) gs)"

text \<open>\<^verbatim>\<open>sub.rename(columns={old: new}, inplace=True)\<close> for a column \<open>old\<close> of the frame.\<close>

definition rename_column ::
  "string \<Rightarrow> string \<Rightarrow> string list \<times> (string \<Rightarrow> pyobj) list \<Rightarrow> string list \<times> (string \<Rightarrow> pyobj) list" where
  "rename_column old new sub =
     (case sub of (cols, rs) \<Rightarrow>
        (map (\<lambda>c. if c = old then new else c) cols,
         map (\<lambda>r c. if c = new then r old else r c) rs))"

text \<open>The body of \<^verbatim>\<open>for t in tickers\<close> in \<^verbatim>\<open>normalize_download\<close>, from
  \<^verbatim>\<open>sub.reset_index()\<close> to the frame appended to \<^verbatim>\<open>parts\<close>.\<close>

definition normalize_sub :: "string \<Rightarrow> string \<Rightarrow> frame \<Rightarrow> part_row list" where
  "normalize_sub t interval sub0 =
     (let sub1 = reset_index sub0;
          sub2 = (if ''Adj Close'' \<in> set (fst sub1)
                  then rename_column ''Adj Close'' ''Adj_Close'' sub1 else sub1);
          ts_col = (if ''Date'' \<in> set (fst sub2) then ''Date'' else hd (fst sub2));
          (cols, rs) = rename_column ts_col ''ts'' sub2;
          cell = (\<lambda>r col. if col \<in> set cols then r col
                           else if col \<noteq> ''Volume'' then float_zero else int_zero)
      in concat (map (\<lambda>r. case to_datetime (r ''ts'') of
                             None \<Rightarrow> []
                           | Some ts \<Rightarrow>
                               [(ts, t, interval, cell r ''Open'', cell r ''High'', cell r ''Low'',
                                 cell r ''Close'', cell r ''Adj_Close'', cell r ''Volume'')])
                   rs))"

text \<open>\<^verbatim>\<open>.astype("int64")\<close> of a float without fraction bits: rounding towards zero.\<close>

definition trunc :: "real \<Rightarrow> int" where
  "trunc x = (if 0 \<le> x then \<lfloor>x\<rfloor> else \<lceil>x\<rceil>)"

text \<open>\<^verbatim>\<open>pd.to_numeric(.., errors="coerce")\<close> on the price columns, and
  \<^verbatim>\<open>pd.to_numeric(.., errors="coerce").fillna(0).astype("int64")\<close> on the volume.\<close>

definition sanitize :: "part_row \<Rightarrow> norm_row" where
  "sanitize p =
     (case p of (ts, t, interval, op, hi, lo, cl, adj, vol) \<Rightarrow>
        \<lparr>r_ts = ts, r_ticker = t, r_interval = interval,
         r_open = to_numeric op, r_high = to_numeric hi, r_low = to_numeric lo,
         r_close = to_numeric cl, r_adj_close = to_numeric adj,
         r_volume = (case to_numeric vol of NaN \<Rightarrow> 0 | Fin x \<Rightarrow> trunc x)\<rparr>)"

definition normalize_download :: "raw \<Rightarrow> string list \<Rightarrow> string \<Rightarrow> norm_row list" where
  "normalize_download df tickers interval =
     (if raw_empty df then []
      else
        (let parts =
               (case df of
                  No_frame \<Rightarrow> []
                | Multi gs \<Rightarrow>
                    concat (map (\<lambda>t. case map_of gs t of
                                        None \<Rightarrow> []
                                      | Some sub \<Rightarrow>
                                          if empty sub then [] else [normalize_sub t interval sub])
                              tickers)
                | Flat f \<Rightarrow>
                    (case tickers of [] \<Rightarrow> [] | t # _ \<Rightarrow> [normalize_sub t interval f]))
         in filter (\<lambda>r. notna (r_close r)) (map sanitize (concat parts))))"

text \<open>\<^verbatim>\<open>chunked(lst, n)\<close> for a positive \<open>n\<close>.\<close>

function chunked :: "'a list \<Rightarrow> nat \<Rightarrow> 'a list list" where
  "chunked lst n = (if n = 0 \<or> lst = [] then [] else take n lst # chunked (drop n lst) n)"
  by pat_completeness auto
termination
  by (relation "measure (\<lambda>(lst, n). length lst)") auto

text \<open>The state key of a ticker: \<^verbatim>\<open>f"{t}|{interval}"\<close>.\<close>

definition price_key :: "string \<Rightarrow> string \<Rightarrow> string" where
  "price_key t interval = t @ ''|'' @ interval"

text \<open>\<^verbatim>\<open>earliest\<close> as computed for one chunk, before the download.\<close>

definition chunk_earliest ::
  "world \<Rightarrow> instant \<Rightarrow> string \<Rightarrow> int \<Rightarrow> int \<Rightarrow> bool \<Rightarrow> string list \<Rightarrow> instant" where
  "chunk_earliest w ingested_at interval overlap_days default_lookback_days force chunk =
     (let earliest = ingested_at - default_lookback_days * 86400
      in if \<not> force
         then foldl (\<lambda>earliest t.
                       case fst (get_state w ''yfinance'' ''fact_stock_prices''
                                   (price_key t interval)) of
                         None \<Rightarrow> earliest
                       | Some l_ts \<Rightarrow>
                           (let start = l_ts - overlap_days * 86400
                            in if start < earliest then start else earliest))
                earliest chunk
         else earliest)"

text \<open>The tuple appended to \<^verbatim>\<open>records\<close> for one row of the ticker's frame.\<close>

definition price_record :: "string \<Rightarrow> string \<Rightarrow> instant \<Rightarrow> norm_row \<Rightarrow> price_rec" where
  "price_record t interval ingested_at r =
     (let adj = (if notna (r_adj_close r) then r_adj_close r else r_close r)
      in (r_ts r, t, interval,
          (if notna (r_open r) then r_open r else r_close r),
          (if notna (r_high r) then r_high r else r_close r),
          (if notna (r_low r) then r_low r else r_close r),
          r_close r, adj, r_volume r, ''yfinance'', ingested_at))"

text \<open>The body of the second \<^verbatim>\<open>for t in chunk\<close>: filter by the watermark, insert, advance.\<close>

definition price_ticker ::
  "instant \<Rightarrow> string \<Rightarrow> bool \<Rightarrow> norm_row list \<Rightarrow> string \<Rightarrow> nat \<times> world \<Rightarrow> nat \<times> world" where
  "price_ticker ingested_at interval force norm_rows t acc =
     (case acc of (tot, w) \<Rightarrow>
      (let sub = filter (\<lambda>r. r_ticker r = t) norm_rows
       in if sub = [] then acc
          else
            (let sub = (if \<not> force
                        then (case fst (get_state w ''yfinance'' ''fact_stock_prices''
                                          (price_key t interval)) of
                                None \<Rightarrow> sub
                              | Some l_ts \<Rightarrow> filter (\<lambda>r. r_ts r > l_ts) sub)
                        else sub)
             in if sub = [] then acc
                else
                  (let records = map (price_record t interval ingested_at) sub;
                       w1 = emit [Inserted_prices records] w;
                       max_ts = Max (set (map fst records));
                       w2 = set_state w1 ''yfinance'' ''fact_stock_prices'' (price_key t interval)
                              (Some max_ts) None
                   in (tot + length records, w2)))))"

text \<open>The loop \<^verbatim>\<open>for chunk in chunked(tickers, chunk_size)\<close>.  An exception raised by
  \<^verbatim>\<open>yf.download\<close> is not caught: it ends the run, with the store as it is then.\<close>

fun price_chunks ::
  "provider \<Rightarrow> instant \<Rightarrow> string \<Rightarrow> int \<Rightarrow> int \<Rightarrow> bool \<Rightarrow> string list list \<Rightarrow> nat \<times> world
     \<Rightarrow> (exn + nat) \<times> world" where
  "price_chunks prov ingested_at interval overlap_days default_lookback_days force [] acc =
     (Inr (fst acc), snd acc)"
| "price_chunks prov ingested_at interval overlap_days default_lookback_days force (chunk # rest) acc =
     (let earliest = chunk_earliest (snd acc) ingested_at interval overlap_days
                       default_lookback_days force chunk;
          start = earliest div 86400;
          w1 = emit [Fetched (Download (join '' '' chunk) start interval)] (snd acc)
      in case download prov (join '' '' chunk) start interval of
           Inl e \<Rightarrow> (Inl e, w1)
         | Inr df \<Rightarrow>
             (let norm_rows = normalize_download df chunk interval
              in if norm_rows = []
                 then price_chunks prov ingested_at interval overlap_days default_lookback_days
                        force rest (fst acc, w1)
                 else price_chunks prov ingested_at interval overlap_days default_lookback_days
                        force rest
                        (fold (price_ticker ingested_at interval force norm_rows) chunk (fst acc, w1))))"

text \<open>\<^verbatim>\<open>range(0, len(lst), n)\<close> raises \<^verbatim>\<open>ValueError\<close> for \<open>n = 0\<close> and is empty for a
  negative \<open>n\<close>.\<close>

definition ingest_stock_prices ::
  "provider \<Rightarrow> instant \<Rightarrow> world \<Rightarrow> string list \<Rightarrow> string \<Rightarrow> int \<Rightarrow> int \<Rightarrow> int \<Rightarrow> bool
     \<Rightarrow> (exn + nat) \<times> world" where
  "ingest_stock_prices prov now w tickers interval overlap_days default_lookback_days chunk_size force =
     (let ingested_at = now;
          tickers = (if tickers = [] then get_latest_membership_tickers w else tickers);
          tickers = filter (\<lambda>t. t \<noteq> [] \<and> t \<noteq> ''nan'') (map strip tickers)
      in if chunk_size = 0 then (Inl (Exn ''range() arg 3 must not be zero''), w)
         else price_chunks prov ingested_at interval overlap_days default_lookback_days force
                (chunked tickers (nat chunk_size)) (0, w))"

section \<open>Auxiliary notions and example inputs\<close>

text \<open>A list of events without a state write.\<close>

definition no_state :: "event list \<Rightarrow> bool" where
  "no_state es = list_all (\<lambda>e. case e of Inserted_state r \<Rightarrow> False | _ \<Rightarrow> True) es"

text \<open>A store with two state rows for the dimension job, the more recent one inserted
  first, and one state row of the market-cap job.\<close>

definition ex_store :: world where
  "ex_store =
     \<lparr>events =
        [Inserted_state \<lparr>source = ''yfinance'', target = ''dim_industry'', key = ''ALL'',
           last_ts = None, last_asof_date = Some 200, updated_at = 7\<rparr>,
         Inserted_state \<lparr>source = ''yfinance'', target = ''dim_industry'', key = ''ALL'',
           last_ts = None, last_asof_date = Some 100, updated_at = 3\<rparr>,
         Inserted_state \<lparr>source = ''yfinance'', target = ''fact_market_cap'', key = ''AAPL'',
           last_ts = None, last_asof_date = Some 50, updated_at = 9\<rparr>],
      clock = 10\<rparr>"

text \<open>The skip test of the snapshot jobs:
  \<^verbatim>\<open>last_asof and last_asof >= asof\<close> on the state of a key.\<close>

definition already_ingested :: "world \<Rightarrow> string \<Rightarrow> string \<Rightarrow> instant \<Rightarrow> bool" where
  "already_ingested w tgt k asof =
     (case snd (get_state w ''yfinance'' tgt k) of Some last_asof \<Rightarrow> last_asof \<ge> asof | None \<Rightarrow> False)"

text \<open>What a run of the dimension job that is not skipped requests, prints and collects,
  and the same for the membership job.\<close>

definition dim_industry_effects :: "provider \<Rightarrow> instant \<Rightarrow> instant \<Rightarrow> string list \<Rightarrow> event list \<times> dim_row list" where
  "dim_industry_effects prov asof now sectors =
     (let results = map (dim_industry_sector prov asof now) (if sectors = [] then DEFAULT_SECTORS else sectors)
      in (concat (map fst results), concat (map snd results)))"

definition membership_effects :: "provider \<Rightarrow> instant \<Rightarrow> instant \<Rightarrow> world \<Rightarrow> event list \<times> member_row list" where
  "membership_effects prov asof now w =
     (let results = map (membership_industry prov asof now) (dim_query w)
      in (concat (map fst results), concat (map snd results)))"

text \<open>A provider that is down, and a store holding one dimension row.\<close>

definition ex_down :: provider where
  "ex_down = \<lparr>sector_industries = (\<lambda>k. Inl (Exn ''HTTP 404'')),
     industry_top_companies = (\<lambda>k. Inl (Exn ''HTTP 404'')),
     ticker_info = (\<lambda>k. Inl (Exn ''HTTP 404'')),
     download = (\<lambda>ts start interval. Inl (Exn ''HTTP 404''))\<rparr>"


text \<open>A ticker that survives \<^verbatim>\<open>if not tkr or tkr == "nan": continue\<close>.\<close>

definition valid_ticker :: "string \<Rightarrow> bool" where
  "valid_ticker tkr = (tkr \<noteq> [] \<and> tkr \<noteq> ''nan'')"

text \<open>What the \<^verbatim>\<open>try\<close> block of the market-cap loop reaches for a ticker: the market
  cap and currency it appends to the batch, if it gets that far, and the exception it
  catches and prints, if one is raised (by the provider or by \<^verbatim>\<open>float(mc)\<close>).\<close>

definition cap_value :: "provider \<Rightarrow> string \<Rightarrow> (pyfloat \<times> string) option" where
  "cap_value prov tkr =
     (case ticker_info prov tkr of
        Inl e \<Rightarrow> None
      | Inr info0 \<Rightarrow>
          (let info = (case info0 of None \<Rightarrow> Map.empty | Some d \<Rightarrow> d)
           in case info ''marketCap'' of
                None \<Rightarrow> None
              | Some m \<Rightarrow>
                  if is_none m then None
                  else (case float_of m of
                          Inl e \<Rightarrow> None
                        | Inr x \<Rightarrow>
                            Some (x, (case info ''currency'' of
                                        None \<Rightarrow> []
                                      | Some c \<Rightarrow> if truthy c then str_of c else [])))))"

definition cap_failure :: "provider \<Rightarrow> string \<Rightarrow> exn option" where
  "cap_failure prov tkr =
     (case ticker_info prov tkr of
        Inl e \<Rightarrow> Some e
      | Inr info0 \<Rightarrow>
          (case (case info0 of None \<Rightarrow> Map.empty | Some d \<Rightarrow> d) ''marketCap'' of
             None \<Rightarrow> None
           | Some m \<Rightarrow>
               if is_none m then None
               else (case float_of m of Inl e \<Rightarrow> Some e | Inr x \<Rightarrow> None)))"

text \<open>Example values: a float with its \<^verbatim>\<open>str\<close>, a string, not-a-number, \<^verbatim>\<open>None\<close>,
  a timestamp.\<close>

definition py_float :: "real \<Rightarrow> string \<Rightarrow> pyobj" where
  "py_float x repr = \<lparr>is_none = False, truthy = (x \<noteq> 0), str_of = repr, float_of = Inr (Fin x),
     to_numeric = Fin x, to_datetime = None\<rparr>"

definition py_str :: "string \<Rightarrow> pyobj" where
  "py_str s = \<lparr>is_none = False, truthy = (s \<noteq> []), str_of = s,
     float_of = Inl (Exn ''could not convert string to float''),
     to_numeric = NaN, to_datetime = None\<rparr>"

definition py_nan :: pyobj where
  "py_nan = \<lparr>is_none = False, truthy = True, str_of = ''nan'', float_of = Inr NaN,
     to_numeric = NaN, to_datetime = None\<rparr>"

definition py_none :: pyobj where
  "py_none = \<lparr>is_none = True, truthy = False, str_of = ''None'',
     float_of = Inl (Exn ''float() argument must be a string or a real number''),
     to_numeric = NaN, to_datetime = None\<rparr>"

definition py_timestamp :: "instant \<Rightarrow> pyobj" where
  "py_timestamp t = \<lparr>is_none = False, truthy = True, str_of = ''Timestamp'',
     float_of = Inl (Exn ''float() argument must be a string or a real number''),
     to_numeric = NaN, to_datetime = Some t\<rparr>"

text \<open>A provider that knows the market cap of one ticker, and the empty store.\<close>

definition ex_up :: provider where
  "ex_up = \<lparr>sector_industries = (\<lambda>k. Inl (Exn ''HTTP 404'')),
     industry_top_companies = (\<lambda>k. Inl (Exn ''HTTP 404'')),
     ticker_info = (\<lambda>k. if k = ''AAPL''
        then Inr (Some [''marketCap'' \<mapsto> py_float 3000 ''3000.0'', ''currency'' \<mapsto> py_str ''USD''])
        else Inl (Exn ''HTTP 404'')),
     download = (\<lambda>ts start interval. Inl (Exn ''HTTP 404''))\<rparr>"

definition ex_empty :: world where
  "ex_empty = \<lparr>events = [], clock = 0\<rparr>"

text \<open>\<^verbatim>\<open>if not tickers: tickers = _get_latest_membership_tickers(client)\<close>\<close>

definition requested_tickers :: "world \<Rightarrow> string list \<Rightarrow> string list" where
  "requested_tickers w tickers = (if tickers = [] then get_latest_membership_tickers w else tickers)"



text \<open>The watermarks \<^verbatim>\<open>last_ts\<close> of the tickers of a chunk that have one.\<close>

definition chunk_watermarks :: "world \<Rightarrow> string \<Rightarrow> string list \<Rightarrow> instant list" where
  "chunk_watermarks w interval chunk =
     concat (map (\<lambda>t. case fst (get_state w ''yfinance'' ''fact_stock_prices'' (price_key t interval)) of
                        None \<Rightarrow> []
                      | Some l_ts \<Rightarrow> [l_ts]) chunk)"

text \<open>A store in which ticker \<open>A\<close> has a price watermark at day 100 and \<open>B\<close> has none.\<close>

definition ex_price_store :: world where
  "ex_price_store =
     \<lparr>events =
        [Inserted_state \<lparr>source = ''yfinance'', target = ''fact_stock_prices'', key = ''A|1d'',
           last_ts = Some 8640000, last_asof_date = None, updated_at = 0\<rparr>],
      clock = 1\<rparr>"

text \<open>The rows of a ticker that pass the watermark filter of the price job.\<close>

definition price_sub :: "world \<Rightarrow> string \<Rightarrow> bool \<Rightarrow> norm_row list \<Rightarrow> string \<Rightarrow> norm_row list" where
  "price_sub w interval force norm_rows t =
     (if force then filter (\<lambda>r. r_ticker r = t) norm_rows
      else (case fst (get_state w ''yfinance'' ''fact_stock_prices'' (price_key t interval)) of
              None \<Rightarrow> filter (\<lambda>r. r_ticker r = t) norm_rows
            | Some l_ts \<Rightarrow> filter (\<lambda>r. r_ts r > l_ts) (filter (\<lambda>r. r_ticker r = t) norm_rows)))"

text \<open>Watermarks in order: nothing recorded before, or recorded and not (strictly) larger.\<close>

definition wm_le :: "instant option \<Rightarrow> instant option \<Rightarrow> bool" where
  "wm_le old new = (case old of None \<Rightarrow> True | Some l \<Rightarrow> (case new of None \<Rightarrow> False | Some n \<Rightarrow> l \<le> n))"

definition wm_lt :: "instant option \<Rightarrow> instant option \<Rightarrow> bool" where
  "wm_lt old new = (case old of None \<Rightarrow> True | Some l \<Rightarrow> (case new of None \<Rightarrow> False | Some n \<Rightarrow> l < n))"

text \<open>The events a run appended to the history.\<close>

definition new_events :: "world \<Rightarrow> world \<Rightarrow> event list" where
  "new_events w w' = drop (length (events w)) (events w')"

text \<open>A state row that advances the price watermark of the ticker of the records \<open>recs\<close>
  to their greatest timestamp.\<close>

definition advance_of :: "string \<Rightarrow> price_rec list \<Rightarrow> state_row \<Rightarrow> bool" where
  "advance_of interval recs r =
     (list_all (\<lambda>rec. fst (snd rec) = fst (snd (hd recs))) recs \<and>
      source r = ''yfinance'' \<and> target r = ''fact_stock_prices'' \<and>
      key r = price_key (fst (snd (hd recs))) interval \<and>
      last_ts r = Some (Max (set (map fst recs))) \<and> last_asof_date r = None)"

text \<open>The order of effects of a price run: download requests, and inserts of price records,
  each of them directly followed by the state write that advances the watermark of its
  ticker; no state write stands anywhere else.\<close>

fun price_trace :: "string \<Rightarrow> event list \<Rightarrow> bool" where
  "price_trace interval [] = True"
| "price_trace interval (Inserted_prices recs # Inserted_state r # es) =
     (recs \<noteq> [] \<and> advance_of interval recs r \<and> price_trace interval es)"
| "price_trace interval (Fetched q # es) = price_trace interval es"
| "price_trace interval (e # es) = False"

text \<open>With force off: a price record is newer than the watermark its ticker had in the store
  \<open>w0\<close>, and a state row records more than the store \<open>w0\<close> did for its key.\<close>

definition above_watermark :: "world \<Rightarrow> string \<Rightarrow> event \<Rightarrow> bool" where
  "above_watermark w0 interval e =
     (case e of
        Inserted_prices recs \<Rightarrow>
          list_all (\<lambda>rec. wm_lt (fst (get_state w0 ''yfinance'' ''fact_stock_prices''
                                        (price_key (fst (snd rec)) interval))) (Some (fst rec))) recs
      | Inserted_state r \<Rightarrow>
          wm_lt (fst (get_state w0 (source r) (target r) (key r))) (last_ts r)
      | _ \<Rightarrow> True)"

definition price_inv :: "string \<Rightarrow> bool \<Rightarrow> world \<Rightarrow> world \<Rightarrow> bool" where
  "price_inv interval force w0 w =
     (\<exists>es. events w = events w0 @ es \<and> price_trace interval es \<and>
        (\<not> force \<longrightarrow>
           (\<forall>k. wm_le (fst (get_state w0 ''yfinance'' ''fact_stock_prices'' k))
                       (fst (get_state w ''yfinance'' ''fact_stock_prices'' k))) \<and>
           list_all (above_watermark w0 interval) es))"



text \<open>A download for the chunk \<open>A B\<close> that has three daily bars for \<open>A\<close> (days 99, 100 and
  101, the last without adjusted close) and nothing for \<open>B\<close>.\<close>

definition ex_bar :: "instant \<Rightarrow> pyobj \<Rightarrow> pyobj \<Rightarrow> frow" where
  "ex_bar t cl adj =
     \<lparr>idx = py_timestamp t,
      cells = (\<lambda>c. if c = ''Open'' then py_float 10 ''10.0''
                    else if c = ''High'' then py_float 12 ''12.0''
                    else if c = ''Low'' then py_float 9 ''9.0''
                    else if c = ''Close'' then cl
                    else if c = ''Adj Close'' then adj
                    else if c = ''Volume'' then py_float 1000 ''1000''
                    else py_none)\<rparr>"

definition ex_frame :: frame where
  "ex_frame =
     \<lparr>index_name = Some ''Date'',
      columns = [''Open'', ''High'', ''Low'', ''Close'', ''Adj Close'', ''Volume''],
      rows = [ex_bar 8553600 (py_float 11 ''11.0'') (py_float 11 ''11.0''),
              ex_bar 8640000 (py_float 11 ''11.0'') (py_float 11 ''11.0''),
              ex_bar 8726400 (py_float 11 ''11.0'') py_nan]\<rparr>"

definition ex_feed :: provider where
  "ex_feed = \<lparr>sector_industries = (\<lambda>k. Inl (Exn ''HTTP 404'')),
     industry_top_companies = (\<lambda>k. Inl (Exn ''HTTP 404'')),
     ticker_info = (\<lambda>k. Inl (Exn ''HTTP 404'')),
     download = (\<lambda>ts start interval.
        if ts = ''A B'' then Inr (Multi [(''A'', ex_frame)]) else Inl (Exn ''HTTP 404''))\<rparr>"



text \<open>The events of the market-cap loop: requests, printed lines and state writes.\<close>

definition cap_loop_event :: "event \<Rightarrow> bool" where
  "cap_loop_event e =
     (case e of Fetched q \<Rightarrow> True | Printed m \<Rightarrow> True | Inserted_state r \<Rightarrow> True | _ \<Rightarrow> False)"

definition is_state_write :: "event \<Rightarrow> bool" where
  "is_state_write e = (case e of Inserted_state r \<Rightarrow> True | _ \<Rightarrow> False)"

text \<open>The state rows among a list of events.\<close>

definition state_writes :: "event list \<Rightarrow> state_row list" where
  "state_writes es = concat (map (\<lambda>e. case e of Inserted_state r \<Rightarrow> [r] | _ \<Rightarrow> []) es)"

text \<open>What holds of a state row that the market-cap loop writes in a run from the store \<open>w0\<close>.\<close>

definition cap_written :: "provider \<Rightarrow> instant \<Rightarrow> bool \<Rightarrow> world \<Rightarrow> state_row \<Rightarrow> bool" where
  "cap_written prov asof force w0 r =
     (source r = ''yfinance'' \<and> target r = ''fact_market_cap'' \<and> last_ts r = None \<and>
      last_asof_date r = Some asof \<and> cap_value prov (key r) \<noteq> None \<and>
      (force \<or> \<not> already_ingested w0 ''fact_market_cap'' (key r) asof))"

definition cap_trace :: "world \<Rightarrow> world \<times> cap_row list \<times> nat \<Rightarrow> bool" where
  "cap_trace w0 acc =
     (case acc of (w, b, n) \<Rightarrow>
        (\<exists>es. events w = events w0 @ es \<and> list_all cap_loop_event es \<and>
              length (state_writes es) = length b \<and> n = length b))"

definition cap_states :: "provider \<Rightarrow> instant \<Rightarrow> bool \<Rightarrow> world \<Rightarrow> world \<times> cap_row list \<times> nat \<Rightarrow> bool" where
  "cap_states prov asof force w0 acc =
     (case acc of (w, b, n) \<Rightarrow>
        (\<exists>es. events w = events w0 @ es \<and> list_all (cap_written prov asof force w0) (state_writes es)) \<and>
        (\<forall>k. get_state w ''yfinance'' ''fact_market_cap'' k =
                get_state w0 ''yfinance'' ''fact_market_cap'' k \<or>
             get_state w ''yfinance'' ''fact_market_cap'' k = (None, Some asof)))"

definition cap_rows :: "provider \<Rightarrow> instant \<Rightarrow> instant \<Rightarrow> world \<Rightarrow> world \<times> cap_row list \<times> nat \<Rightarrow> bool" where
  "cap_rows prov asof now w0 acc =
     (case acc of (w, b, n) \<Rightarrow>
        (\<forall>k. already_ingested w ''fact_market_cap'' k asof \<longrightarrow>
             already_ingested w0 ''fact_market_cap'' k asof \<or>
             (\<exists>x cur. cap_value prov k = Some (x, cur) \<and>
                      (asof, k, x, cur, ''yfinance_info'', now) \<in> set b)))"



text \<open>The events of the loops of the dimension and membership jobs: requests and printed
  lines only.\<close>

definition io_event :: "event \<Rightarrow> bool" where
  "io_event e = (case e of Fetched q \<Rightarrow> True | Printed m \<Rightarrow> True | _ \<Rightarrow> False)"

















section \<open>Theorems\<close>

subsection \<open>The state store\<close>

lemma get_state_latest:
  "get_state w src tgt k = (case latest (state_rows_of w src tgt k) of None \<Rightarrow> (None, None)
      | Some r \<Rightarrow> (last_ts r, last_asof_date r))"
  by (simp add: get_state_def latest_def split: list.splits)

lemma latest_Nil: "latest [] = None"
  by (simp add: latest_def)

lemma latest_Cons:
  "latest (a # rs) = (case latest rs of None \<Rightarrow> Some a
     | Some b \<Rightarrow> if updated_at b \<le> updated_at a then Some a else Some b)"
proof (cases "sort_key (\<lambda>r. - updated_at r) rs")
  case Nil
  then show ?thesis by (simp add: latest_def)
next
  case (Cons b bs)
  then show ?thesis by (simp add: latest_def)
qed

lemma latest_append:
  "latest (rs @ [x]) = (case latest rs of None \<Rightarrow> Some x
     | Some b \<Rightarrow> if updated_at b < updated_at x then Some x else Some b)"
proof (induction rs)
  case Nil
  then show ?case by (simp add: latest_Cons latest_Nil)
next
  case (Cons a rs)
  then show ?case
    by (cases "latest rs") (auto simp: latest_Cons)
qed

lemma latest_None: "latest rs = None \<longleftrightarrow> rs = []"
  by (cases rs) (auto simp: latest_Nil latest_Cons split: option.splits)

lemma latest_in: "latest rs = Some r \<Longrightarrow> r \<in> set rs \<and> (\<forall>y\<in>set rs. updated_at y \<le> updated_at r)"
proof (induction rs arbitrary: r)
  case Nil
  then show ?case by (simp add: latest_Nil)
next
  case (Cons a rs)
  show ?case
  proof (cases "latest rs")
    case None
    then have "rs = []" by (simp add: latest_None)
    with Cons.prems show ?thesis by (simp add: latest_Cons latest_Nil)
  next
    case (Some b)
    from Cons.IH[OF Some] have b: "b \<in> set rs" "\<forall>y\<in>set rs. updated_at y \<le> updated_at b" by auto
    from Cons.prems Some have "r = (if updated_at b \<le> updated_at a then a else b)"
      by (simp add: latest_Cons split: if_splits)
    with b show ?thesis by (auto intro: order_trans)
  qed
qed

lemma latest_Max: 
  assumes "latest rs = Some r" shows "updated_at r = Max (updated_at ` set rs)"
proof -
  from latest_in[OF assms] have "r \<in> set rs" "\<forall>y\<in>set rs. updated_at y \<le> updated_at r" by auto
  then show ?thesis by (intro Max_eqI[symmetric]) auto
qed

lemma ingest_state_emit:
  "ingest_state (emit es w) = ingest_state w @ concat (map (\<lambda>e. case e of Inserted_state r \<Rightarrow> [r] | _ \<Rightarrow> []) es)"
  by (simp add: ingest_state_def emit_def)

lemma no_state_concat: "no_state es \<Longrightarrow> concat (map (\<lambda>e. case e of Inserted_state r \<Rightarrow> [r] | _ \<Rightarrow> []) es) = []"
  by (induction es) (auto simp: no_state_def split: event.splits)

lemma ingest_state_emit_no_state: "no_state es \<Longrightarrow> ingest_state (emit es w) = ingest_state w"
  by (simp add: ingest_state_emit no_state_concat)

lemma get_state_emit: "no_state es \<Longrightarrow> get_state (emit es w) src tgt k = get_state w src tgt k"
  by (simp add: get_state_def state_rows_of_def ingest_state_emit_no_state)

lemma clock_emit: "clock (emit es w) = clock w"
  by (simp add: emit_def)

lemma events_emit: "events (emit es w) = events w @ es"
  by (simp add: emit_def)


lemma events_set_state:
  "events (set_state w src tgt k a b) = events w @ [Inserted_state \<lparr>source = src, target = tgt, key = k, last_ts = a,
             last_asof_date = b, updated_at = clock w\<rparr>]"
  by (simp add: set_state_def)


lemma ingest_state_set_state:
  "ingest_state (set_state w src tgt k a b) = ingest_state w @ [\<lparr>source = src, target = tgt, key = k, last_ts = a,
             last_asof_date = b, updated_at = clock w\<rparr>]"
  by (simp add: set_state_def ingest_state_def)


lemma state_rows_of_set_state:
  "state_rows_of (set_state w src tgt k a b) src' tgt' k' =
     state_rows_of w src' tgt' k' @
       (if src = src' \<and> tgt = tgt' \<and> k = k' then [\<lparr>source = src, target = tgt, key = k, last_ts = a,
             last_asof_date = b, updated_at = clock w\<rparr>] else [])"
  by (simp add: state_rows_of_def ingest_state_set_state)

lemma get_state_set_state_other:
  "\<not> (src = src' \<and> tgt = tgt' \<and> k = k') \<Longrightarrow>
     get_state (set_state w src tgt k a b) src' tgt' k' = get_state w src' tgt' k'"
proof -
  assume "\<not> (src = src' \<and> tgt = tgt' \<and> k = k')"
  then have "state_rows_of (set_state w src tgt k a b) src' tgt' k' = state_rows_of w src' tgt' k'"
    unfolding state_rows_of_set_state by simp
  then show ?thesis by (simp add: get_state_def)
qed


text \<open>Whatever the clock, a read after a write returns the old answer or the new row.\<close>
lemma get_state_set_state_cases:
  "get_state (set_state w src tgt k a b) src tgt k = (a, b) \<or>
   get_state (set_state w src tgt k a b) src tgt k = get_state w src tgt k"
  by (cases "latest (state_rows_of w src tgt k)")
     (simp_all add: get_state_latest state_rows_of_set_state latest_append)


subsection \<open>The snapshot jobs\<close>






lemma ingest_dim_industry_skip:
  "\<not> force \<Longrightarrow> already_ingested w ''dim_industry'' ''ALL'' (asof_or_today asof_date now) \<Longrightarrow>
   ingest_dim_industry prov now w sectors asof_date force = (0, w)"
  by (simp add: ingest_dim_industry_def already_ingested_def Let_def)

lemma ingest_dim_industry_run:
  assumes "force \<or> \<not> already_ingested w ''dim_industry'' ''ALL'' (asof_or_today asof_date now)"
  shows "ingest_dim_industry prov now w sectors asof_date force =
     (case dim_industry_effects prov (asof_or_today asof_date now) now sectors of (es, rs) \<Rightarrow>
       (length rs,
        set_state (emit (es @ (if rs \<noteq> [] then [Inserted_dim rs] else [])) w)
          ''yfinance'' ''dim_industry'' ''ALL'' None (Some (asof_or_today asof_date now))))"
  using assms
  by (auto simp: ingest_dim_industry_def already_ingested_def dim_industry_effects_def Let_def emit_def)

lemma ingest_membership_skip:
  "\<not> force \<Longrightarrow> already_ingested w ''industry_membership'' ''ALL'' (asof_or_today asof_date now) \<Longrightarrow>
   ingest_membership prov now w asof_date force = (0, w)"
  by (simp add: ingest_membership_def already_ingested_def Let_def)

lemma ingest_membership_run:
  assumes "force \<or> \<not> already_ingested w ''industry_membership'' ''ALL'' (asof_or_today asof_date now)"
  shows "ingest_membership prov now w asof_date force =
     (case membership_effects prov (asof_or_today asof_date now) now w of (es, rs) \<Rightarrow>
       (length rs,
        set_state (emit (es @ (if rs \<noteq> [] then [Inserted_membership rs] else [])) w)
          ''yfinance'' ''industry_membership'' ''ALL'' None (Some (asof_or_today asof_date now))))"
  using assms
  by (auto simp: ingest_membership_def already_ingested_def membership_effects_def Let_def emit_def)


subsection \<open>The market-cap job\<close>

text \<open>The loop body of the market-cap job, by cases.\<close>

lemma market_cap_ticker_step:
  "market_cap_ticker prov asof now force t (w, b, n) =
     (if \<not> valid_ticker (strip t) \<or>
         (\<not> force \<and> already_ingested w ''fact_market_cap'' (strip t) asof)
      then (w, b, n)
      else (case cap_value prov (strip t) of
              Some (x, cur) \<Rightarrow>
                (set_state (emit [Fetched (Ticker (strip t))] w) ''yfinance'' ''fact_market_cap''
                   (strip t) None (Some asof),
                 b @ [(asof, strip t, x, cur, ''yfinance_info'', now)], n + 1)
            | None \<Rightarrow>
                (case cap_failure prov (strip t) of
                   Some e \<Rightarrow>
                     (emit [Fetched (Ticker (strip t)), Printed (Ticker_failed (strip t) e)] w, b, n)
                 | None \<Rightarrow> (emit [Fetched (Ticker (strip t))] w, b, n))))"
  by (simp add: market_cap_ticker_def valid_ticker_def already_ingested_def cap_value_def
      cap_failure_def Let_def emit_def split: sum.splits option.splits)

lemma already_ingested_emit:
  "no_state es \<Longrightarrow> already_ingested (emit es w) tgt k a = already_ingested w tgt k a"
  by (simp add: already_ingested_def get_state_emit)

lemma already_ingested_set_state_other:
  "k' \<noteq> k \<Longrightarrow> already_ingested (set_state w src tgt k x y) tgt k' a = already_ingested w tgt k' a"
  by (simp add: already_ingested_def get_state_set_state_other)

lemma no_state_simps:
  "no_state [Fetched q]" "no_state [Fetched q, Printed m]" "no_state [Inserted_market_cap b]"
  "no_state [Inserted_dim d]" "no_state [Inserted_membership mm]" "no_state [Inserted_prices pp]"
  by (simp_all add: no_state_def)













lemma ingest_market_cap_fold:
  "ingest_market_cap prov now w tickers asof_date force =
     (case fold (market_cap_ticker prov (asof_or_today asof_date now) now force)
             (requested_tickers w tickers) (w, [], 0) of
        (w1, batch, total_rows) \<Rightarrow>
          (total_rows, if batch \<noteq> [] then emit [Inserted_market_cap batch] w1 else w1))"
  by (simp add: ingest_market_cap_def requested_tickers_def Let_def)





subsection \<open>The fetch window of a chunk\<close>

lemma earliest_foldl:
  "foldl (\<lambda>earliest t.
            case fst (get_state w ''yfinance'' ''fact_stock_prices'' (price_key t interval)) of
              None \<Rightarrow> earliest
            | Some l_ts \<Rightarrow>
                (let start = l_ts - overlap_days * 86400
                 in if start < earliest then start else earliest)) e chunk =
   Min (set (e # map (\<lambda>l. l - overlap_days * 86400) (chunk_watermarks w interval chunk)))"
proof (induction chunk arbitrary: e)
  case Nil
  then show ?case by (simp add: chunk_watermarks_def)
next
  case (Cons t ts)
  show ?case
  proof (cases "fst (get_state w ''yfinance'' ''fact_stock_prices'' (price_key t interval))")
    case None
    then show ?thesis using Cons.IH[of e] by (simp add: chunk_watermarks_def)
  next
    case (Some l)
    let ?s = "l - overlap_days * 86400"
    let ?R = "set (map (\<lambda>l. l - overlap_days * 86400) (chunk_watermarks w interval ts))"
    have "Min (insert (min ?s e) ?R) = Min (insert e (insert ?s ?R))"
    proof -
      have "Min (insert e (insert ?s ?R)) = min e (Min (insert ?s ?R))"
        by (rule Min_insert) simp_all
      also have "\<dots> = Min (insert (min ?s e) ?R)"
        by (cases "?R = {}") (simp_all add: min.commute min.assoc)
      finally show ?thesis by simp
    qed
    moreover have "(if ?s < e then ?s else e) = min ?s e" by (simp add: min_def)
    ultimately show ?thesis
      using Some Cons.IH[of "min ?s e"] by (simp add: chunk_watermarks_def Let_def)
  qed
qed

lemma chunk_earliest_Min:
  "chunk_earliest w now interval overlap_days default_lookback_days False chunk =
     Min (set ((now - default_lookback_days * 86400) #
               map (\<lambda>l. l - overlap_days * 86400) (chunk_watermarks w interval chunk)))"
  by (simp add: chunk_earliest_def Let_def earliest_foldl del: foldl.simps)

lemma chunk_watermarks_mem:
  "t \<in> set chunk \<Longrightarrow> fst (get_state w ''yfinance'' ''fact_stock_prices'' (price_key t interval)) = Some l
   \<Longrightarrow> l \<in> set (chunk_watermarks w interval chunk)"
  by (induction chunk) (auto simp: chunk_watermarks_def)

lemma chunk_earliest_force:
  "chunk_earliest w now interval overlap_days default_lookback_days True chunk =
     now - default_lookback_days * 86400"
  by (simp add: chunk_earliest_def)

subsection \<open>The price loop\<close>

lemma price_ticker_step:
  "price_ticker now interval force norm_rows t (n, w) =
     (let sub = price_sub w interval force norm_rows t
      in if sub = [] then (n, w)
         else (n + length sub,
               set_state (emit [Inserted_prices (map (price_record t interval now) sub)] w)
                 ''yfinance'' ''fact_stock_prices'' (price_key t interval)
                 (Some (Max (set (map r_ts sub)))) None))"
  by (auto simp: price_ticker_def price_sub_def Let_def image_image price_record_def
      filter_empty_conv split: option.splits)

lemma price_trace_append:
  "price_trace interval xs \<Longrightarrow> price_trace interval ys \<Longrightarrow> price_trace interval (xs @ ys)"
  by (induction interval xs rule: price_trace.induct) simp_all

lemma price_sub_ticker: "r \<in> set (price_sub w interval force norm_rows t) \<Longrightarrow> r_ticker r = t"
  by (auto simp: price_sub_def split: if_splits option.splits)

lemma price_sub_above:
  "r \<in> set (price_sub w interval False norm_rows t) \<Longrightarrow>
   wm_lt (fst (get_state w ''yfinance'' ''fact_stock_prices'' (price_key t interval))) (Some (r_ts r))"
  by (auto simp: price_sub_def wm_lt_def split: option.splits)

lemma wm_le_lt_trans: "wm_le a b \<Longrightarrow> wm_lt b c \<Longrightarrow> wm_lt a c"
  by (auto simp: wm_le_def wm_lt_def split: option.splits)

lemma wm_lt_le: "wm_lt a b \<Longrightarrow> wm_le a b"
  by (auto simp: wm_le_def wm_lt_def split: option.splits)

lemma wm_le_refl: "wm_le a a"
  by (auto simp: wm_le_def split: option.splits)

lemma price_record_fst: "fst (price_record t interval now r) = r_ts r"
  by (simp add: price_record_def Let_def)

lemma price_record_ticker: "fst (snd (price_record t interval now r)) = t"
  by (simp add: price_record_def Let_def)

lemma price_inv_refl: "price_inv interval force w w"
  by (auto simp: price_inv_def wm_le_refl intro!: exI[of _ "[]"])

lemma price_trace_fetch: "price_trace interval es \<Longrightarrow> price_trace interval (es @ [Fetched q])"
  by (rule price_trace_append) simp_all

lemma price_inv_fetch:
  assumes "price_inv interval force w0 w"
  shows "price_inv interval force w0 (emit [Fetched q] w)"
proof -
  from assms obtain es where es: "events w = events w0 @ es" "price_trace interval es"
    "\<not> force \<longrightarrow>
       (\<forall>k. wm_le (fst (get_state w0 ''yfinance'' ''fact_stock_prices'' k))
                   (fst (get_state w ''yfinance'' ''fact_stock_prices'' k))) \<and>
       list_all (above_watermark w0 interval) es"
    unfolding price_inv_def by blast
  have 1: "events (emit [Fetched q] w) = events w0 @ (es @ [Fetched q])"
    using es(1) by (simp add: events_emit)
  have 2: "price_trace interval (es @ [Fetched q])" using es(2) by (rule price_trace_fetch)
  have 3: "\<not> force \<longrightarrow>
       (\<forall>k. wm_le (fst (get_state w0 ''yfinance'' ''fact_stock_prices'' k))
                   (fst (get_state (emit [Fetched q] w) ''yfinance'' ''fact_stock_prices'' k))) \<and>
       list_all (above_watermark w0 interval) (es @ [Fetched q])"
    using es(3) by (simp add: get_state_emit no_state_simps above_watermark_def)
  from 1 2 3 show ?thesis unfolding price_inv_def by blast
qed

lemma Max_above:
  assumes "xs \<noteq> []" "\<forall>x\<in>set xs. wm_lt a (Some (f x))"
  shows "wm_lt a (Some (Max (set (map f xs))))"
proof -
  have "Max (set (map f xs)) \<in> set (map f xs)"
    using assms(1) by (intro Max_in) simp_all
  then obtain x where "x \<in> set xs" "Max (set (map f xs)) = f x" by auto
  with assms(2) show ?thesis by simp
qed

lemma price_inv_step:
  assumes inv: "price_inv interval force w0 w"
    and step: "price_ticker now interval force norm_rows t (n, w) = (n', w')"
  shows "price_inv interval force w0 w'"
proof (cases "price_sub w interval force norm_rows t = []")
  case True
  with step have "w' = w" by (simp add: price_ticker_step)
  with inv show ?thesis by simp
next
  case False
  define sub where "sub = price_sub w interval force norm_rows t"
  define recs where "recs = map (price_record t interval now) sub"
  define k where "k = price_key t interval"
  define m where "m = Max (set (map r_ts sub))"
  define r where "r = \<lparr>source = ''yfinance'', target = ''fact_stock_prices'', key = k,
     last_ts = Some m, last_asof_date = None, updated_at = clock w\<rparr>"
  define w1 where "w1 = emit [Inserted_prices recs] w"
  have ne: "sub \<noteq> []" using False by (simp add: sub_def)
  have w': "w' = set_state w1 ''yfinance'' ''fact_stock_prices'' k (Some m) None"
    using step False by (simp add: price_ticker_step sub_def recs_def k_def m_def w1_def Let_def)
  from inv obtain es where es: "events w = events w0 @ es" "price_trace interval es"
    "\<not> force \<longrightarrow>
       (\<forall>k. wm_le (fst (get_state w0 ''yfinance'' ''fact_stock_prices'' k))
                   (fst (get_state w ''yfinance'' ''fact_stock_prices'' k))) \<and>
       list_all (above_watermark w0 interval) es"
    unfolding price_inv_def by blast
  have ev: "events w' = events w0 @ (es @ [Inserted_prices recs, Inserted_state r])"
    unfolding w' by (simp add: events_set_state w1_def events_emit clock_emit es(1) r_def)
  have recs_ne: "recs \<noteq> []" using ne by (simp add: recs_def)
  have hd_t: "fst (snd (hd recs)) = t"
    using ne by (cases sub) (simp_all add: recs_def price_record_ticker)
  have all_t: "list_all (\<lambda>rec. fst (snd rec) = t) recs"
    by (simp add: recs_def list_all_iff price_record_ticker)
  have fsts: "map fst recs = map r_ts sub"
    by (simp add: recs_def price_record_fst)
  have adv: "advance_of interval recs r"
    unfolding advance_of_def hd_t using all_t by (simp add: r_def k_def m_def fsts)
  have tr: "price_trace interval (es @ [Inserted_prices recs, Inserted_state r])"
    by (rule price_trace_append[OF es(2)]) (simp add: recs_ne adv)
  have nf: "\<not> force \<longrightarrow>
       (\<forall>k'. wm_le (fst (get_state w0 ''yfinance'' ''fact_stock_prices'' k'))
                   (fst (get_state w' ''yfinance'' ''fact_stock_prices'' k'))) \<and>
       list_all (above_watermark w0 interval) (es @ [Inserted_prices recs, Inserted_state r])"
  proof
    assume f: "\<not> force"
    with es(3) have le: "\<And>k'. wm_le (fst (get_state w0 ''yfinance'' ''fact_stock_prices'' k'))
                   (fst (get_state w ''yfinance'' ''fact_stock_prices'' k'))"
      and ab: "list_all (above_watermark w0 interval) es" by auto
    have sub_above: "\<forall>x\<in>set sub. wm_lt (fst (get_state w ''yfinance'' ''fact_stock_prices'' k)) (Some (r_ts x))"
      using f price_sub_above[of _ w interval norm_rows t] by (simp add: sub_def k_def)
    have sub0: "\<forall>x\<in>set sub. wm_lt (fst (get_state w0 ''yfinance'' ''fact_stock_prices'' k)) (Some (r_ts x))"
      using sub_above le[of k] by (blast intro: wm_le_lt_trans)
    have m0: "wm_lt (fst (get_state w0 ''yfinance'' ''fact_stock_prices'' k)) (Some m)"
      unfolding m_def by (rule Max_above[OF ne sub0])
    have gw1: "get_state w1 ''yfinance'' ''fact_stock_prices'' k' = get_state w ''yfinance'' ''fact_stock_prices'' k'" for k'
      by (simp add: w1_def get_state_emit no_state_simps)
    have le': "wm_le (fst (get_state w0 ''yfinance'' ''fact_stock_prices'' k'))
                   (fst (get_state w' ''yfinance'' ''fact_stock_prices'' k'))" for k'
    proof (cases "k' = k")
      case True
      from get_state_set_state_cases[of w1 "''yfinance''" "''fact_stock_prices''" k "Some m" None]
      show ?thesis
      proof
        assume "get_state (set_state w1 ''yfinance'' ''fact_stock_prices'' k (Some m) None)
            ''yfinance'' ''fact_stock_prices'' k = (Some m, None)"
        then show ?thesis using m0 True by (simp add: w' wm_lt_le)
      next
        assume "get_state (set_state w1 ''yfinance'' ''fact_stock_prices'' k (Some m) None)
            ''yfinance'' ''fact_stock_prices'' k = get_state w1 ''yfinance'' ''fact_stock_prices'' k"
        then show ?thesis using le[of k] True by (simp add: w' gw1)
      qed
    next
      case False
      then show ?thesis using le[of k'] by (simp add: w' get_state_set_state_other gw1)
    qed
    have a1: "above_watermark w0 interval (Inserted_prices recs)"
      using sub0 by (simp add: above_watermark_def recs_def list_all_iff price_record_fst
          price_record_ticker k_def)
    have a2: "above_watermark w0 interval (Inserted_state r)"
      using m0 by (simp add: above_watermark_def r_def)
    from le' ab a1 a2 show "(\<forall>k'. wm_le (fst (get_state w0 ''yfinance'' ''fact_stock_prices'' k'))
                   (fst (get_state w' ''yfinance'' ''fact_stock_prices'' k'))) \<and>
       list_all (above_watermark w0 interval) (es @ [Inserted_prices recs, Inserted_state r])"
      by simp
  qed
  from ev tr nf show ?thesis unfolding price_inv_def by blast
qed

lemma price_inv_fold:
  "price_inv interval force w0 w \<Longrightarrow>
   price_inv interval force w0 (snd (fold (price_ticker now interval force norm_rows) chunk (n, w)))"
proof (induction chunk arbitrary: n w)
  case Nil
  then show ?case by simp
next
  case (Cons t ts)
  obtain n1 w1 where s: "price_ticker now interval force norm_rows t (n, w) = (n1, w1)"
    by (cases "price_ticker now interval force norm_rows t (n, w)")
  from price_inv_step[OF Cons.prems s] have "price_inv interval force w0 w1" .
  from Cons.IH[OF this] s show ?case by simp
qed

lemma price_inv_chunks:
  "price_inv interval force w0 (snd acc) \<Longrightarrow>
   price_inv interval force w0
     (snd (price_chunks prov now interval overlap_days default_lookback_days force chunks acc))"
proof (induction chunks arbitrary: acc)
  case Nil
  then show ?case by simp
next
  case (Cons chunk rest)
  define q where "q = Download (join '' '' chunk)
      (chunk_earliest (snd acc) now interval overlap_days default_lookback_days force chunk div 86400)
      interval"
  define w1 where "w1 = emit [Fetched q] (snd acc)"
  have i1: "price_inv interval force w0 w1"
    unfolding w1_def by (rule price_inv_fetch[OF Cons.prems])
  show ?case
  proof (cases "download prov (join '' '' chunk)
      (chunk_earliest (snd acc) now interval overlap_days default_lookback_days force chunk div 86400)
      interval")
    case (Inl e)
    then show ?thesis using i1 by (simp add: Let_def w1_def q_def)
  next
    case (Inr df)
    show ?thesis
    proof (cases "normalize_download df chunk interval = []")
      case True
      from Cons.IH[of "(fst acc, w1)"] i1
      show ?thesis using Inr True by (simp add: Let_def w1_def q_def)
    next
      case False
      define a2 where "a2 = fold (price_ticker now interval force (normalize_download df chunk interval))
          chunk (fst acc, w1)"
      have "price_inv interval force w0 (snd a2)"
        unfolding a2_def by (rule price_inv_fold[OF i1])
      from Cons.IH[OF this]
      show ?thesis using Inr False by (simp add: Let_def w1_def q_def a2_def)
    qed
  qed
qed

lemma price_inv_run:
  "price_inv interval force w
     (snd (ingest_stock_prices prov now w tickers interval overlap_days default_lookback_days
             chunk_size force))"
proof (cases "chunk_size = 0")
  case True
  then show ?thesis by (simp add: ingest_stock_prices_def Let_def price_inv_refl)
next
  case False
  have "price_inv interval force w (snd (0::nat, w))" by (simp add: price_inv_refl)
  from price_inv_chunks[OF this] False show ?thesis
    by (simp add: ingest_stock_prices_def Let_def)
qed

lemma price_run_events:
  obtains es where
    "events (snd (ingest_stock_prices prov now w tickers interval overlap_days
        default_lookback_days chunk_size force)) = events w @ es"
    "price_trace interval es"
    "\<not> force \<Longrightarrow> list_all (above_watermark w interval) es"
  using price_inv_run[of interval force w prov now tickers overlap_days default_lookback_days chunk_size]
  unfolding price_inv_def by blast

lemma new_events_append: "events w' = events w @ es \<Longrightarrow> new_events w w' = es"
  by (simp add: new_events_def)

lemma fact_stock_prices_append:
  "events w' = events w @ es \<Longrightarrow>
   fact_stock_prices w' = fact_stock_prices w @
     concat (map (\<lambda>e. case e of Inserted_prices rs \<Rightarrow> rs | _ \<Rightarrow> []) es)"
  by (simp add: fact_stock_prices_def)

lemma above_watermark_rows:
  assumes "list_all (above_watermark w interval) es"
    "rec \<in> set (concat (map (\<lambda>e. case e of Inserted_prices rs \<Rightarrow> rs | _ \<Rightarrow> []) es))"
  shows "wm_lt (fst (get_state w ''yfinance'' ''fact_stock_prices''
                       (price_key (fst (snd rec)) interval))) (Some (fst rec))"
proof -
  from assms(2) obtain e where e: "e \<in> set es"
    "rec \<in> set (case e of Inserted_prices rs \<Rightarrow> rs | _ \<Rightarrow> [])" by auto
  from e(2) obtain rs where rs: "e = Inserted_prices rs" "rec \<in> set rs"
    by (cases e) auto
  from assms(1) e(1) have "above_watermark w interval e" by (simp add: list_all_iff)
  with rs show ?thesis by (simp add: above_watermark_def list_all_iff)
qed

lemma price_chunks_first:
  "\<exists>es. events (snd (price_chunks prov now interval overlap_days default_lookback_days force
                      (chunk # rest) acc)) =
        events (snd acc) @
          Fetched (Download (join '' '' chunk)
                     (chunk_earliest (snd acc) now interval overlap_days default_lookback_days
                        force chunk div 86400) interval) # es"
proof -
  define q where "q = Download (join '' '' chunk)
      (chunk_earliest (snd acc) now interval overlap_days default_lookback_days force chunk div 86400)
      interval"
  define w1 where "w1 = emit [Fetched q] (snd acc)"
  have r: "price_inv interval force w1 (snd (price_chunks prov now interval overlap_days
      default_lookback_days force (chunk # rest) acc))"
  proof (cases "download prov (join '' '' chunk)
      (chunk_earliest (snd acc) now interval overlap_days default_lookback_days force chunk div 86400)
      interval")
    case (Inl e)
    then show ?thesis by (simp add: Let_def w1_def q_def price_inv_refl)
  next
    case (Inr df)
    show ?thesis
    proof (cases "normalize_download df chunk interval = []")
      case True
      have "price_inv interval force w1 (snd (fst acc, w1))" by (simp add: price_inv_refl)
      from price_inv_chunks[OF this]
      show ?thesis using Inr True by (simp add: Let_def w1_def q_def)
    next
      case False
      define a2 where "a2 = fold (price_ticker now interval force (normalize_download df chunk interval))
          chunk (fst acc, w1)"
      have "price_inv interval force w1 (snd a2)"
        unfolding a2_def by (rule price_inv_fold[OF price_inv_refl])
      from price_inv_chunks[OF this]
      show ?thesis using Inr False by (simp add: Let_def w1_def q_def a2_def)
    qed
  qed
  then obtain es where "events (snd (price_chunks prov now interval overlap_days
      default_lookback_days force (chunk # rest) acc)) = events w1 @ es"
    unfolding price_inv_def by blast
  then show ?thesis by (simp add: w1_def q_def events_emit)
qed

lemma price_chunks_first_event:
  "hd (new_events w (snd (price_chunks prov now interval overlap_days default_lookback_days force
                            (chunk # rest) (n, w)))) =
     Fetched (Download (join '' '' chunk)
                (chunk_earliest w now interval overlap_days default_lookback_days force chunk
                   div 86400) interval)"
  using price_chunks_first[of prov now interval overlap_days default_lookback_days force chunk rest
      "(n, w)"]
  by (auto simp: new_events_def)

subsection \<open>Invariants of the market-cap loop\<close>

lemma fold_invariant:
  "P s \<Longrightarrow> (\<And>x s. P s \<Longrightarrow> P (f x s)) \<Longrightarrow> P (fold f xs s)"
  by (induction xs arbitrary: s) simp_all

lemma state_writes_simps:
  "state_writes [] = []" "state_writes (xs @ ys) = state_writes xs @ state_writes ys"
  "state_writes (Inserted_state r # es) = r # state_writes es"
  "state_writes (Fetched q # es) = state_writes es"
  "state_writes (Printed m # es) = state_writes es"
  "state_writes (Inserted_market_cap b # es) = state_writes es"
  "state_writes (Inserted_dim d # es) = state_writes es"
  "state_writes (Inserted_membership mm # es) = state_writes es"
  "state_writes (Inserted_prices pp # es) = state_writes es"
  by (simp_all add: state_writes_def)

text \<open>The three outcomes of a step that is not skipped.\<close>

lemma market_cap_ticker_cases:
  obtains
    (skipped) "market_cap_ticker prov asof now force t (w, b, n) = (w, b, n)"
  | (quiet) es where "market_cap_ticker prov asof now force t (w, b, n) = (emit es w, b, n)"
      "es = [Fetched (Ticker (strip t))] \<or>
       (\<exists>e. es = [Fetched (Ticker (strip t)), Printed (Ticker_failed (strip t) e)])"
      "cap_value prov (strip t) = None"
  | (written) x cur where
      "market_cap_ticker prov asof now force t (w, b, n) =
         (set_state (emit [Fetched (Ticker (strip t))] w) ''yfinance'' ''fact_market_cap''
            (strip t) None (Some asof),
          b @ [(asof, strip t, x, cur, ''yfinance_info'', now)], n + 1)"
      "cap_value prov (strip t) = Some (x, cur)"
      "force \<or> \<not> already_ingested w ''fact_market_cap'' (strip t) asof"
proof (cases "\<not> valid_ticker (strip t) \<or>
         (\<not> force \<and> already_ingested w ''fact_market_cap'' (strip t) asof)")
  case True
  then show ?thesis using skipped by (simp add: market_cap_ticker_step)
next
  case False
  show ?thesis
  proof (cases "cap_value prov (strip t)")
    case None
    show ?thesis
    proof (cases "cap_failure prov (strip t)")
      case N: None
      show ?thesis
        by (rule quiet[of "[Fetched (Ticker (strip t))]"])
           (use False None N in \<open>auto simp: market_cap_ticker_step\<close>)
    next
      case (Some e)
      show ?thesis
        by (rule quiet[of "[Fetched (Ticker (strip t)), Printed (Ticker_failed (strip t) e)]"])
           (use False None Some in \<open>auto simp: market_cap_ticker_step\<close>)
    qed
  next
    case (Some p)
    obtain x cur where p: "p = (x, cur)" by (cases p)
    show ?thesis
      by (rule written[of x cur]) (use False Some p in \<open>auto simp: market_cap_ticker_step\<close>)
  qed
qed

lemma cap_trace_step:
  assumes "cap_trace w0 (w, b, n)"
  shows "cap_trace w0 (market_cap_ticker prov asof now force t (w, b, n))"
proof -
  from assms obtain es where es: "events w = events w0 @ es" "list_all cap_loop_event es"
    "length (state_writes es) = length b" "n = length b"
    unfolding cap_trace_def by auto
  show ?thesis
  proof (cases rule: market_cap_ticker_cases[of prov asof now force t w b n])
    case skipped
    then show ?thesis using assms by simp
  next
    case (quiet es')
    have "events (emit es' w) = events w0 @ (es @ es')" using es(1) by (simp add: events_emit)
    moreover have "list_all cap_loop_event (es @ es')"
      using es(2) quiet(2) by (auto simp: cap_loop_event_def)
    moreover have "length (state_writes (es @ es')) = length b"
      using es(3) quiet(2) by (auto simp: state_writes_simps)
    ultimately show ?thesis unfolding quiet(1) cap_trace_def using es(4) by auto
  next
    case (written x cur)
    let ?r = "\<lparr>source = ''yfinance'', target = ''fact_market_cap'', key = strip t,
       last_ts = None, last_asof_date = Some asof, updated_at = clock w\<rparr>"
    let ?es' = "es @ [Fetched (Ticker (strip t)), Inserted_state ?r]"
    have "events (set_state (emit [Fetched (Ticker (strip t))] w) ''yfinance'' ''fact_market_cap''
            (strip t) None (Some asof)) = events w0 @ ?es'"
      using es(1) by (simp add: events_set_state events_emit clock_emit)
    moreover have "list_all cap_loop_event ?es'"
      using es(2) by (simp add: cap_loop_event_def)
    moreover have "length (state_writes ?es') = length (b @ [(asof, strip t, x, cur, ''yfinance_info'', now)])"
      using es(3) by (simp add: state_writes_simps)
    ultimately show ?thesis unfolding written(1) cap_trace_def using es(4) by auto
  qed
qed

lemma get_state_cap_cases:
  assumes "\<forall>k. get_state w ''yfinance'' ''fact_market_cap'' k =
                get_state w0 ''yfinance'' ''fact_market_cap'' k \<or>
             get_state w ''yfinance'' ''fact_market_cap'' k = (None, Some asof)"
  shows "\<forall>k. get_state (set_state (emit [Fetched q] w) ''yfinance'' ''fact_market_cap'' k' None
                  (Some asof)) ''yfinance'' ''fact_market_cap'' k =
                get_state w0 ''yfinance'' ''fact_market_cap'' k \<or>
             get_state (set_state (emit [Fetched q] w) ''yfinance'' ''fact_market_cap'' k' None
                  (Some asof)) ''yfinance'' ''fact_market_cap'' k = (None, Some asof)"
proof
  fix k
  have e: "get_state (emit [Fetched q] w) ''yfinance'' ''fact_market_cap'' k =
      get_state w ''yfinance'' ''fact_market_cap'' k"
    by (simp add: get_state_emit no_state_simps)
  show "get_state (set_state (emit [Fetched q] w) ''yfinance'' ''fact_market_cap'' k' None
                  (Some asof)) ''yfinance'' ''fact_market_cap'' k =
                get_state w0 ''yfinance'' ''fact_market_cap'' k \<or>
             get_state (set_state (emit [Fetched q] w) ''yfinance'' ''fact_market_cap'' k' None
                  (Some asof)) ''yfinance'' ''fact_market_cap'' k = (None, Some asof)"
  proof (cases "k = k'")
    case True
    from get_state_set_state_cases[of "emit [Fetched q] w" "''yfinance''" "''fact_market_cap''" k'
        None "Some asof"] assms e True
    show ?thesis by metis
  next
    case False
    then show ?thesis using assms e by (simp add: get_state_set_state_other)
  qed
qed

lemma not_ingested_back:
  assumes "get_state w ''yfinance'' ''fact_market_cap'' k =
                get_state w0 ''yfinance'' ''fact_market_cap'' k \<or>
             get_state w ''yfinance'' ''fact_market_cap'' k = (None, Some asof)"
    "\<not> already_ingested w ''fact_market_cap'' k asof"
  shows "\<not> already_ingested w0 ''fact_market_cap'' k asof"
  using assms by (auto simp: already_ingested_def)

lemma cap_states_step:
  assumes "cap_states prov asof force w0 (w, b, n)"
  shows "cap_states prov asof force w0 (market_cap_ticker prov asof now force t (w, b, n))"
proof -
  from assms obtain es where es: "events w = events w0 @ es"
    "list_all (cap_written prov asof force w0) (state_writes es)"
    and j: "\<forall>k. get_state w ''yfinance'' ''fact_market_cap'' k =
                get_state w0 ''yfinance'' ''fact_market_cap'' k \<or>
             get_state w ''yfinance'' ''fact_market_cap'' k = (None, Some asof)"
    unfolding cap_states_def by auto
  show ?thesis
  proof (cases rule: market_cap_ticker_cases[of prov asof now force t w b n])
    case skipped
    then show ?thesis using assms by simp
  next
    case (quiet es')
    have ns: "no_state es'" using quiet(2) by (auto simp: no_state_def)
    have sw: "state_writes es' = []" using quiet(2) by (auto simp: state_writes_simps)
    have "events (emit es' w) = events w0 @ (es @ es')" using es(1) by (simp add: events_emit)
    moreover have "list_all (cap_written prov asof force w0) (state_writes (es @ es'))"
      using es(2) sw by (simp add: state_writes_simps)
    ultimately show ?thesis unfolding quiet(1) cap_states_def using j
      by (auto simp: get_state_emit[OF ns])
  next
    case (written x cur)
    let ?r = "\<lparr>source = ''yfinance'', target = ''fact_market_cap'', key = strip t,
       last_ts = None, last_asof_date = Some asof, updated_at = clock w\<rparr>"
    let ?es' = "es @ [Fetched (Ticker (strip t)), Inserted_state ?r]"
    let ?w' = "set_state (emit [Fetched (Ticker (strip t))] w) ''yfinance'' ''fact_market_cap''
            (strip t) None (Some asof)"
    have ev: "events ?w' = events w0 @ ?es'"
      using es(1) by (simp add: events_set_state events_emit clock_emit)
    have "force \<or> \<not> already_ingested w0 ''fact_market_cap'' (strip t) asof"
      using written(3) not_ingested_back[of w "strip t" w0 asof] j by blast
    then have "cap_written prov asof force w0 ?r"
      using written(2) by (simp add: cap_written_def)
    then have sw: "list_all (cap_written prov asof force w0) (state_writes ?es')"
      using es(2) by (simp add: state_writes_simps)
    from ev sw get_state_cap_cases[OF j, of "Ticker (strip t)" "strip t"]
    show ?thesis unfolding written(1) cap_states_def by blast
  qed
qed

lemma cap_rows_step:
  assumes "cap_rows prov asof now w0 (w, b, n)"
  shows "cap_rows prov asof now w0 (market_cap_ticker prov asof now force t (w, b, n))"
proof (cases rule: market_cap_ticker_cases[of prov asof now force t w b n])
  case skipped
  then show ?thesis using assms by simp
next
  case (quiet es')
  have ns: "no_state es'" using quiet(2) by (auto simp: no_state_def)
  show ?thesis unfolding quiet(1) using assms
    by (simp add: cap_rows_def already_ingested_emit[OF ns])
next
  case (written x cur)
  show ?thesis unfolding written(1) cap_rows_def prod.case
  proof (intro allI impI)
    fix k
    assume a: "already_ingested (set_state (emit [Fetched (Ticker (strip t))] w) ''yfinance''
        ''fact_market_cap'' (strip t) None (Some asof)) ''fact_market_cap'' k asof"
    show "already_ingested w0 ''fact_market_cap'' k asof \<or>
       (\<exists>x' cur'. cap_value prov k = Some (x', cur') \<and>
          (asof, k, x', cur', ''yfinance_info'', now) \<in>
            set (b @ [(asof, strip t, x, cur, ''yfinance_info'', now)]))"
    proof (cases "k = strip t")
      case True
      then show ?thesis using written(2) by simp
    next
      case False
      with a have "already_ingested w ''fact_market_cap'' k asof"
        by (simp add: already_ingested_set_state_other already_ingested_emit no_state_simps)
      with assms show ?thesis by (auto simp: cap_rows_def)
    qed
  qed
qed

lemma market_cap_fold_inv:
  assumes "\<And>acc t. P acc \<Longrightarrow> P (market_cap_ticker prov asof now force t acc)" "P acc"
  shows "P (fold (market_cap_ticker prov asof now force) ts acc)"
  using assms by (induction ts arbitrary: acc) simp_all

lemma cap_trace_fold:
  "cap_trace w (fold (market_cap_ticker prov asof now force) ts (w, [], 0))"
proof (rule market_cap_fold_inv)
  show "cap_trace w (w, [], 0)" by (simp add: cap_trace_def state_writes_simps)
  fix acc :: "world \<times> cap_row list \<times> nat" and t
  assume "cap_trace w acc"
  then show "cap_trace w (market_cap_ticker prov asof now force t acc)"
    by (cases acc) (simp add: cap_trace_step)
qed

lemma cap_states_fold:
  "cap_states prov asof force w (fold (market_cap_ticker prov asof now force) ts (w, [], 0))"
proof (rule market_cap_fold_inv)
  show "cap_states prov asof force w (w, [], 0)" by (simp add: cap_states_def state_writes_simps)
  fix acc :: "world \<times> cap_row list \<times> nat" and t
  assume "cap_states prov asof force w acc"
  then show "cap_states prov asof force w (market_cap_ticker prov asof now force t acc)"
    by (cases acc) (simp add: cap_states_step)
qed

lemma cap_rows_fold:
  assumes "cap_rows prov asof now w0 acc"
  shows "cap_rows prov asof now w0 (fold (market_cap_ticker prov asof now force) ts acc)"
proof (rule market_cap_fold_inv)
  show "cap_rows prov asof now w0 acc" by (rule assms)
  fix acc :: "world \<times> cap_row list \<times> nat" and t
  assume "cap_rows prov asof now w0 acc"
  then show "cap_rows prov asof now w0 (market_cap_ticker prov asof now force t acc)"
    by (cases acc) (simp add: cap_rows_step)
qed

subsection \<open>The events of a run\<close>

lemma io_event_no_state: "list_all io_event es \<Longrightarrow> state_writes es = []"
  by (induction es) (auto simp: io_event_def state_writes_def split: event.splits)

lemma io_dim_industry_sector: "list_all io_event (fst (dim_industry_sector prov asof now sk))"
  by (auto simp: dim_industry_sector_def io_event_def Let_def
      split: sum.splits option.splits prod.splits)

lemma io_membership_industry: "list_all io_event (fst (membership_industry prov asof now g))"
  by (auto simp: membership_industry_def io_event_def Let_def
      split: sum.splits option.splits prod.splits)

lemma list_all_concat_map: "(\<And>x. list_all P (f x)) \<Longrightarrow> list_all P (concat (map f xs))"
  by (induction xs) simp_all

lemma io_dim_industry_effects: "list_all io_event (fst (dim_industry_effects prov asof now sectors))"
  unfolding dim_industry_effects_def Let_def fst_conv map_map
  by (rule list_all_concat_map) (simp add: io_dim_industry_sector)

lemma io_membership_effects: "list_all io_event (fst (membership_effects prov asof now w))"
  unfolding membership_effects_def Let_def fst_conv map_map
  by (rule list_all_concat_map) (simp add: io_membership_industry)

lemma ingest_dim_industry_new_events:
  assumes "force \<or> \<not> already_ingested w ''dim_industry'' ''ALL'' (asof_or_today asof_date now)"
  shows "new_events w (snd (ingest_dim_industry prov now w sectors asof_date force)) =
     fst (dim_industry_effects prov (asof_or_today asof_date now) now sectors) @
     (if snd (dim_industry_effects prov (asof_or_today asof_date now) now sectors) \<noteq> []
      then [Inserted_dim (snd (dim_industry_effects prov (asof_or_today asof_date now) now sectors))]
      else []) @
     [Inserted_state \<lparr>source = ''yfinance'', target = ''dim_industry'', key = ''ALL'',
        last_ts = None, last_asof_date = Some (asof_or_today asof_date now),
        updated_at = clock w\<rparr>]"
  unfolding ingest_dim_industry_run[OF assms]
  by (cases "dim_industry_effects prov (asof_or_today asof_date now) now sectors")
     (simp add: new_events_def events_set_state events_emit clock_emit)

lemma ingest_membership_new_events:
  assumes "force \<or> \<not> already_ingested w ''industry_membership'' ''ALL'' (asof_or_today asof_date now)"
  shows "new_events w (snd (ingest_membership prov now w asof_date force)) =
     fst (membership_effects prov (asof_or_today asof_date now) now w) @
     (if snd (membership_effects prov (asof_or_today asof_date now) now w) \<noteq> []
      then [Inserted_membership (snd (membership_effects prov (asof_or_today asof_date now) now w))]
      else []) @
     [Inserted_state \<lparr>source = ''yfinance'', target = ''industry_membership'', key = ''ALL'',
        last_ts = None, last_asof_date = Some (asof_or_today asof_date now),
        updated_at = clock w\<rparr>]"
  unfolding ingest_membership_run[OF assms]
  by (cases "membership_effects prov (asof_or_today asof_date now) now w")
     (simp add: new_events_def events_set_state events_emit clock_emit)

lemma new_events_self: "new_events w w = []"
  by (simp add: new_events_def)

text \<open>The run of the market-cap job: the events of the loop, then the batch.\<close>

lemma ingest_market_cap_new_events:
  obtains es batch where
    "new_events w (snd (ingest_market_cap prov now w tickers asof_date force)) =
       es @ (if batch \<noteq> [] then [Inserted_market_cap batch] else [])"
    "list_all cap_loop_event es"
    "length (state_writes es) = length batch"
    "fst (ingest_market_cap prov now w tickers asof_date force) = length batch"
    "list_all (cap_written prov (asof_or_today asof_date now) force w) (state_writes es)"
proof -
  let ?a = "asof_or_today asof_date now"
  let ?ts = "requested_tickers w tickers"
  obtain w1 b1 n1 where f: "fold (market_cap_ticker prov ?a now force) ?ts (w, [], 0) = (w1, b1, n1)"
    by (cases "fold (market_cap_ticker prov ?a now force) ?ts (w, [], 0)")
  from cap_trace_fold[of w prov ?a now force ?ts] f
  obtain es where es: "events w1 = events w @ es" "list_all cap_loop_event es"
    "length (state_writes es) = length b1" "n1 = length b1"
    unfolding cap_trace_def by auto
  from cap_states_fold[of prov ?a force w now ?ts] f
  obtain es' where es': "events w1 = events w @ es'"
    "list_all (cap_written prov ?a force w) (state_writes es')"
    unfolding cap_states_def by auto
  from es(1) es'(1) have same: "es' = es" by simp
  have r: "ingest_market_cap prov now w tickers asof_date force =
      (n1, if b1 \<noteq> [] then emit [Inserted_market_cap b1] w1 else w1)"
    by (simp add: ingest_market_cap_fold f)
  have 1: "new_events w (snd (ingest_market_cap prov now w tickers asof_date force)) =
       es @ (if b1 \<noteq> [] then [Inserted_market_cap b1] else [])"
    unfolding r by (simp add: new_events_def events_emit es(1))
  have 4: "fst (ingest_market_cap prov now w tickers asof_date force) = length b1"
    unfolding r using es(4) by simp
  from that[OF 1 es(2) es(3) 4] es'(2) same show thesis by simp
qed

lemma state_writes_mem: "r \<in> set (state_writes es) \<longleftrightarrow> Inserted_state r \<in> set es"
  by (induction es) (auto simp: state_writes_def split: event.splits)

lemma not_ingested_wm_le:
  "\<not> already_ingested w tgt k a \<Longrightarrow> wm_le (snd (get_state w ''yfinance'' tgt k)) (Some a)"
  by (auto simp: already_ingested_def wm_le_def split: option.splits)

subsection \<open>Failures of single entities\<close>







lemma dim_industry_new:
  "events w' = events w @ es \<Longrightarrow>
   dim_industry w' = dim_industry w @ concat (map (\<lambda>e. case e of Inserted_dim rs \<Rightarrow> rs | _ \<Rightarrow> []) es)"
  by (simp add: dim_industry_def)

lemma industry_membership_new:
  "events w' = events w @ es \<Longrightarrow>
   industry_membership w' = industry_membership w @
     concat (map (\<lambda>e. case e of Inserted_membership rs \<Rightarrow> rs | _ \<Rightarrow> []) es)"
  by (simp add: industry_membership_def)




























subsection \<open>Numeric clean-up\<close>





section \<open>The claims\<close>

text \<open>
  C7.  For every (source, target, key), \<open>get_state\<close> returns \<open>(None, None)\<close> when the store
  has no state row for the key, and otherwise the \<open>(last_ts, last_asof_date)\<close> pair of a
  state row of that key whose \<open>updated_at\<close> is the maximum over all state rows of the key,
  however many there are.
\<close>

theorem get_state_most_recent:
  "(state_rows_of w src tgt k = [] \<longrightarrow> get_state w src tgt k = (None, None)) \<and>
   (state_rows_of w src tgt k \<noteq> [] \<longrightarrow>
      (\<exists>r \<in> set (state_rows_of w src tgt k).
         updated_at r = Max (updated_at ` set (state_rows_of w src tgt k)) \<and>
         get_state w src tgt k = (last_ts r, last_asof_date r)))"
proof (cases "latest (state_rows_of w src tgt k)")
  case None
  then have "state_rows_of w src tgt k = []" by (simp add: latest_None)
  then show ?thesis by (simp add: get_state_def)
next
  case (Some r)
  have ne: "state_rows_of w src tgt k \<noteq> []"
  proof
    assume "state_rows_of w src tgt k = []"
    then have "latest (state_rows_of w src tgt k) = None" by (simp add: latest_Nil)
    with Some show False by simp
  qed
  have mem: "r \<in> set (state_rows_of w src tgt k)" using latest_in[OF Some] by simp
  have mx: "updated_at r = Max (updated_at ` set (state_rows_of w src tgt k))"
    by (rule latest_Max[OF Some])
  have gs: "get_state w src tgt k = (last_ts r, last_asof_date r)"
    by (simp add: get_state_latest Some)
  from ne mem mx gs show ?thesis by blast
qed


theorem get_state_most_recent_witness:
  "state_rows_of ex_store ''yfinance'' ''dim_industry'' ''ALL'' \<noteq> [] \<and>
   (\<exists>r \<in> set (state_rows_of ex_store ''yfinance'' ''dim_industry'' ''ALL'').
      updated_at r = Max (updated_at ` set (state_rows_of ex_store ''yfinance'' ''dim_industry'' ''ALL'')) \<and>
      get_state ex_store ''yfinance'' ''dim_industry'' ''ALL'' = (last_ts r, last_asof_date r)) \<and>
   get_state ex_store ''yfinance'' ''dim_industry'' ''ALL'' = (None, Some 200) \<and>
   state_rows_of ex_store ''yfinance'' ''fact_market_cap'' ''MSFT'' = [] \<and>
   get_state ex_store ''yfinance'' ''fact_market_cap'' ''MSFT'' = (None, None)"
proof -
  have ne: "state_rows_of ex_store ''yfinance'' ''dim_industry'' ''ALL'' \<noteq> []"
    by (simp add: state_rows_of_def ingest_state_def ex_store_def)
  have e: "state_rows_of ex_store ''yfinance'' ''fact_market_cap'' ''MSFT'' = []"
    by (simp add: state_rows_of_def ingest_state_def ex_store_def)
  have v: "get_state ex_store ''yfinance'' ''dim_industry'' ''ALL'' = (None, Some 200)"
    by (simp add: get_state_def state_rows_of_def ingest_state_def ex_store_def)
  from get_state_most_recent[of ex_store "''yfinance''" "''dim_industry''" "''ALL''"]
       get_state_most_recent[of ex_store "''yfinance''" "''fact_market_cap''" "''MSFT''"]
       ne e v
  show ?thesis by simp
qed







text \<open>
  C3.  In a price run with force off, for a ticker whose watermark before the run is \<open>l\<close>,
  every row the run adds to the price fact table for that ticker has a timestamp strictly
  greater than \<open>l\<close>, whatever the download returned and wherever the run ends.
\<close>

theorem price_rows_above_watermark:
  assumes "fst (get_state w ''yfinance'' ''fact_stock_prices'' (price_key t interval)) = Some l"
  shows
    "\<forall>rec \<in> set (drop (length (fact_stock_prices w))
                   (fact_stock_prices
                      (snd (ingest_stock_prices prov now w tickers interval overlap_days
                              default_lookback_days chunk_size False)))).
        fst (snd rec) = t \<longrightarrow> l < fst rec"
proof -
  obtain es where es:
    "events (snd (ingest_stock_prices prov now w tickers interval overlap_days
        default_lookback_days chunk_size False)) = events w @ es"
    "list_all (above_watermark w interval) es"
    using price_run_events[of prov now w tickers interval overlap_days default_lookback_days
        chunk_size False] by blast
  show ?thesis
    unfolding fact_stock_prices_append[OF es(1)]
  proof (simp only: append_eq_conv_conj drop_append length_drop diff_self_eq_0 drop_0 drop_all
      order_refl append_Nil, intro ballI impI)
    fix rec
    assume r: "rec \<in> set (concat (map (\<lambda>e. case e of Inserted_prices rs \<Rightarrow> rs | _ \<Rightarrow> []) es))"
      and t: "fst (snd rec) = t"
    from above_watermark_rows[OF es(2) r] t assms show "l < fst rec"
      by (simp add: wm_lt_def)
  qed
qed

theorem price_rows_above_watermark_witness:
  "fst (get_state ex_price_store ''yfinance'' ''fact_stock_prices'' (price_key ''A'' ''1d'')) =
     Some 8640000 \<and>
   drop (length (fact_stock_prices ex_price_store))
     (fact_stock_prices
        (snd (ingest_stock_prices ex_feed 86400000 ex_price_store [''A'', ''B''] ''1d'' 5 370 50
                False))) =
     [(8726400, ''A'', ''1d'', Fin 10, Fin 12, Fin 9, Fin 11, Fin 11, 1000, ''yfinance'',
       86400000)] \<and>
   list_all (\<lambda>rec. 8640000 < fst rec)
     (filter (\<lambda>rec. fst (snd rec) = ''A'')
        (drop (length (fact_stock_prices ex_price_store))
           (fact_stock_prices
              (snd (ingest_stock_prices ex_feed 86400000 ex_price_store [''A'', ''B''] ''1d'' 5
                      370 50 False)))))"
proof -
  have g: "fst (get_state ex_price_store ''yfinance'' ''fact_stock_prices'' (price_key ''A'' ''1d'')) =
     Some 8640000"
    by code_simp
  have v: "drop (length (fact_stock_prices ex_price_store))
     (fact_stock_prices
        (snd (ingest_stock_prices ex_feed 86400000 ex_price_store [''A'', ''B''] ''1d'' 5 370 50
                False))) =
     [(8726400, ''A'', ''1d'', Fin 10, Fin 12, Fin 9, Fin 11, Fin 11, 1000, ''yfinance'',
       86400000)]"
    by code_simp
  from price_rows_above_watermark[OF g, of ex_feed 86400000 "[''A'', ''B'']" 5 370 50]
  have "list_all (\<lambda>rec. 8640000 < fst rec)
     (filter (\<lambda>rec. fst (snd rec) = ''A'')
        (drop (length (fact_stock_prices ex_price_store))
           (fact_stock_prices
              (snd (ingest_stock_prices ex_feed 86400000 ex_price_store [''A'', ''B''] ''1d'' 5
                      370 50 False)))))"
    unfolding list_all_iff by simp
  with g v show ?thesis by blast
qed

text \<open>
  C2 (as amended).  In a price run with force off the fetch window is computed per chunk:
  its start is the least of \<open>now - default_lookback_days\<close> and of \<open>l - overlap_days\<close> over the
  tickers of the chunk that have a watermark \<open>l\<close>.  It is therefore at most
  \<open>now - default_lookback_days\<close>, at most \<open>min (now - default_lookback_days) (l - overlap_days)\<close>
  for every ticker of the chunk with watermark \<open>l\<close>, and equal to that minimum
  (to \<open>now - default_lookback_days\<close> without a watermark) when the ticker is alone in its
  chunk.  The download is requested from the calendar date of that start.
\<close>

theorem chunk_fetch_window:
  "chunk_earliest w now interval overlap_days default_lookback_days False chunk =
     Min (set ((now - default_lookback_days * 86400) #
               map (\<lambda>l. l - overlap_days * 86400) (chunk_watermarks w interval chunk))) \<and>
   chunk_earliest w now interval overlap_days default_lookback_days False chunk \<le>
     now - default_lookback_days * 86400 \<and>
   (\<forall>t\<in>set chunk. \<forall>l.
      fst (get_state w ''yfinance'' ''fact_stock_prices'' (price_key t interval)) = Some l \<longrightarrow>
      chunk_earliest w now interval overlap_days default_lookback_days False chunk \<le>
        min (now - default_lookback_days * 86400) (l - overlap_days * 86400)) \<and>
   chunk_earliest w now interval overlap_days default_lookback_days False [t] =
     (case fst (get_state w ''yfinance'' ''fact_stock_prices'' (price_key t interval)) of
        None \<Rightarrow> now - default_lookback_days * 86400
      | Some l \<Rightarrow> min (now - default_lookback_days * 86400) (l - overlap_days * 86400)) \<and>
   hd (new_events w (snd (price_chunks prov now interval overlap_days default_lookback_days False
                            (chunk # rest) (n, w)))) =
     Fetched (Download (join '' '' chunk)
                (chunk_earliest w now interval overlap_days default_lookback_days False chunk
                   div 86400) interval)"
proof (intro conjI ballI allI impI)
  let ?base = "now - default_lookback_days * 86400"
  let ?W = "map (\<lambda>l. l - overlap_days * 86400) (chunk_watermarks w interval chunk)"
  show m: "chunk_earliest w now interval overlap_days default_lookback_days False chunk =
      Min (set (?base # ?W))"
    by (rule chunk_earliest_Min)
  show "chunk_earliest w now interval overlap_days default_lookback_days False chunk \<le> ?base"
    unfolding m by (rule Min_le) simp_all
  show "chunk_earliest w now interval overlap_days default_lookback_days False [t] =
     (case fst (get_state w ''yfinance'' ''fact_stock_prices'' (price_key t interval)) of
        None \<Rightarrow> ?base
      | Some l \<Rightarrow> min ?base (l - overlap_days * 86400))"
    by (simp add: chunk_earliest_def Let_def min_def split: option.splits)
  show "hd (new_events w (snd (price_chunks prov now interval overlap_days default_lookback_days
        False (chunk # rest) (n, w)))) =
     Fetched (Download (join '' '' chunk)
                (chunk_earliest w now interval overlap_days default_lookback_days False chunk
                   div 86400) interval)"
    by (rule price_chunks_first_event)
  fix t' l
  assume t: "t' \<in> set chunk"
    and l: "fst (get_state w ''yfinance'' ''fact_stock_prices'' (price_key t' interval)) = Some l"
  have "l - overlap_days * 86400 \<in> set (?base # ?W)"
    using chunk_watermarks_mem[OF t l] by simp
  then have 1: "Min (set (?base # ?W)) \<le> l - overlap_days * 86400"
    by (intro Min_le) simp_all
  have 2: "Min (set (?base # ?W)) \<le> ?base" by (rule Min_le) simp_all
  from 1 2 show "chunk_earliest w now interval overlap_days default_lookback_days False chunk \<le>
        min ?base (l - overlap_days * 86400)"
    unfolding m by simp
qed

theorem chunk_fetch_window_witness:
  "''A'' \<in> set [''A'', ''B''] \<and>
   fst (get_state ex_price_store ''yfinance'' ''fact_stock_prices'' (price_key ''A'' ''1d'')) =
     Some 8640000 \<and>
   chunk_earliest ex_price_store 86400000 ''1d'' 5 370 False [''A'', ''B''] \<le>
     min (86400000 - 370 * 86400) (8640000 - 5 * 86400) \<and>
   chunk_earliest ex_price_store 86400000 ''1d'' 5 370 False [''A''] = 8208000 \<and>
   chunk_earliest ex_price_store 86400000 ''1d'' 5 370 False [''B''] = 54432000"
proof -
  have g: "fst (get_state ex_price_store ''yfinance'' ''fact_stock_prices'' (price_key ''A'' ''1d'')) =
     Some 8640000"
    by code_simp
  have gb: "fst (get_state ex_price_store ''yfinance'' ''fact_stock_prices'' (price_key ''B'' ''1d'')) =
     None"
    by code_simp
  note t = chunk_fetch_window[of ex_price_store 86400000 "''1d''" 5 370 "[''A'', ''B'']" "''A''"
      ex_feed "[]" 0]
  note tb = chunk_fetch_window[of ex_price_store 86400000 "''1d''" 5 370 "[''A'', ''B'']" "''B''"
      ex_feed "[]" 0]
  from t g have 1: "chunk_earliest ex_price_store 86400000 ''1d'' 5 370 False [''A'', ''B''] \<le>
     min (86400000 - 370 * 86400) (8640000 - 5 * 86400)"
    by simp
  from t g have 2: "chunk_earliest ex_price_store 86400000 ''1d'' 5 370 False [''A''] = 8208000"
    by simp
  from tb gb have 3: "chunk_earliest ex_price_store 86400000 ''1d'' 5 370 False [''B''] = 54432000"
    by simp
  from g 1 2 3 show ?thesis by simp
qed

theorem chunk_fetch_window_counterexample:
  "fst (get_state ex_price_store ''yfinance'' ''fact_stock_prices'' (price_key ''B'' ''1d'')) = None \<and>
   fst (get_state ex_price_store ''yfinance'' ''fact_stock_prices'' (price_key ''A'' ''1d'')) =
     Some 8640000 \<and>
   86400000 - 370 * 86400 = (54432000::int) \<and>
   chunk_earliest ex_price_store 86400000 ''1d'' 5 370 False [''A'', ''B''] = 8208000 \<and>
   events (snd (ingest_stock_prices ex_feed 86400000 ex_price_store [''A'', ''B''] ''1d'' 5 370 50
                  False)) ! 1 =
     Fetched (Download ''A B'' 95 ''1d'')"
  by code_simp

text \<open>
  C4 (as amended).  With force on, a price run consults no watermark at all: the fetch window
  of every chunk starts at \<open>now - default_lookback_days\<close>, whatever the watermarks are, and
  every normalized row of a ticker is written, without the watermark filter.
\<close>

theorem force_skips_widening:
  "chunk_earliest w now interval overlap_days default_lookback_days True chunk =
     now - default_lookback_days * 86400 \<and>
   hd (new_events w (snd (price_chunks prov now interval overlap_days default_lookback_days True
                            (chunk # rest) (n, w)))) =
     Fetched (Download (join '' '' chunk) ((now - default_lookback_days * 86400) div 86400)
                interval) \<and>
   price_ticker now interval True norm_rows t (n, w) =
     (let sub = filter (\<lambda>r. r_ticker r = t) norm_rows
      in if sub = [] then (n, w)
         else (n + length sub,
               set_state (emit [Inserted_prices (map (price_record t interval now) sub)] w)
                 ''yfinance'' ''fact_stock_prices'' (price_key t interval)
                 (Some (Max (set (map r_ts sub)))) None))"
  using price_chunks_first_event[of w prov now interval overlap_days default_lookback_days True
      chunk rest n]
  by (simp add: chunk_earliest_force price_ticker_step price_sub_def)

theorem force_skips_widening_witness:
  "chunk_earliest ex_price_store 86400000 ''1d'' 5 370 True [''A''] = 54432000 \<and>
   fact_stock_prices
     (snd (ingest_stock_prices ex_feed 86400000 ex_price_store [''A'', ''B''] ''1d'' 5 370 50 True)) =
     [(8553600, ''A'', ''1d'', Fin 10, Fin 12, Fin 9, Fin 11, Fin 11, 1000, ''yfinance'', 86400000),
      (8640000, ''A'', ''1d'', Fin 10, Fin 12, Fin 9, Fin 11, Fin 11, 1000, ''yfinance'', 86400000),
      (8726400, ''A'', ''1d'', Fin 10, Fin 12, Fin 9, Fin 11, Fin 11, 1000, ''yfinance'', 86400000)]"
proof -
  from force_skips_widening[of ex_price_store 86400000 "''1d''" 5 370 "[''A'']" ex_feed "[]" 0 "[]" "''A''"]
  have 1: "chunk_earliest ex_price_store 86400000 ''1d'' 5 370 True [''A''] = 54432000"
    by simp
  have 2: "fact_stock_prices
     (snd (ingest_stock_prices ex_feed 86400000 ex_price_store [''A'', ''B''] ''1d'' 5 370 50 True)) =
     [(8553600, ''A'', ''1d'', Fin 10, Fin 12, Fin 9, Fin 11, Fin 11, 1000, ''yfinance'', 86400000),
      (8640000, ''A'', ''1d'', Fin 10, Fin 12, Fin 9, Fin 11, Fin 11, 1000, ''yfinance'', 86400000),
      (8726400, ''A'', ''1d'', Fin 10, Fin 12, Fin 9, Fin 11, Fin 11, 1000, ''yfinance'', 86400000)]"
    by code_simp
  from 1 2 show ?thesis by simp
qed

theorem force_widening_counterexample:
  "fst (get_state ex_price_store ''yfinance'' ''fact_stock_prices'' (price_key ''A'' ''1d'')) =
     Some 8640000 \<and>
   min (86400000 - 370 * 86400) (8640000 - 5 * 86400) = (8208000::int) \<and>
   chunk_earliest ex_price_store 86400000 ''1d'' 5 370 True [''A''] = 54432000 \<and>
   events (snd (ingest_stock_prices ex_feed 86400000 ex_price_store [''A'', ''B''] ''1d'' 5 370 50
                  True)) ! 1 =
     Fetched (Download ''A B'' 630 ''1d'')"
  by code_simp

text \<open>
  C5 (as amended).  In the dimension, membership and price jobs the watermark advance comes
  only after the bulk write of the rows it covers: a run of the dimension or membership job
  that is not skipped requests and prints, then inserts its rows (if it has any), and writes
  the state row as its last effect; in a price run every state write directly follows the
  insert of the records of its ticker, whose greatest timestamp it records.  In the market-cap
  job it is the other way round: the state rows are written inside the loop, one for each row
  of the batch, and the batch is inserted once, after the loop, as the last effect of the run.
\<close>

theorem advance_after_write:
  "(force \<or> \<not> already_ingested w ''dim_industry'' ''ALL'' (asof_or_today asof_date now) \<longrightarrow>
      (case dim_industry_effects prov (asof_or_today asof_date now) now sectors of
         (es, rs) \<Rightarrow>
           list_all io_event es \<and>
           new_events w (snd (ingest_dim_industry prov now w sectors asof_date force)) =
             es @ (if rs \<noteq> [] then [Inserted_dim rs] else []) @
             [Inserted_state \<lparr>source = ''yfinance'', target = ''dim_industry'', key = ''ALL'',
                last_ts = None, last_asof_date = Some (asof_or_today asof_date now),
                updated_at = clock w\<rparr>])) \<and>
   (force \<or> \<not> already_ingested w ''industry_membership'' ''ALL'' (asof_or_today asof_date now) \<longrightarrow>
      (case membership_effects prov (asof_or_today asof_date now) now w of
         (es, rs) \<Rightarrow>
           list_all io_event es \<and>
           new_events w (snd (ingest_membership prov now w asof_date force)) =
             es @ (if rs \<noteq> [] then [Inserted_membership rs] else []) @
             [Inserted_state \<lparr>source = ''yfinance'', target = ''industry_membership'',
                key = ''ALL'', last_ts = None,
                last_asof_date = Some (asof_or_today asof_date now), updated_at = clock w\<rparr>])) \<and>
   price_trace interval
     (new_events w (snd (ingest_stock_prices prov now w tickers interval overlap_days
                           default_lookback_days chunk_size force))) \<and>
   (\<exists>es batch.
      new_events w (snd (ingest_market_cap prov now w tickers asof_date force)) =
        es @ (if batch \<noteq> [] then [Inserted_market_cap batch] else []) \<and>
      list_all cap_loop_event es \<and>
      length (state_writes es) = length batch \<and>
      fst (ingest_market_cap prov now w tickers asof_date force) = length batch)"
proof (intro conjI impI)
  assume run: "force \<or> \<not> already_ingested w ''dim_industry'' ''ALL'' (asof_or_today asof_date now)"
  show "case dim_industry_effects prov (asof_or_today asof_date now) now sectors of
         (es, rs) \<Rightarrow>
           list_all io_event es \<and>
           new_events w (snd (ingest_dim_industry prov now w sectors asof_date force)) =
             es @ (if rs \<noteq> [] then [Inserted_dim rs] else []) @
             [Inserted_state \<lparr>source = ''yfinance'', target = ''dim_industry'', key = ''ALL'',
                last_ts = None, last_asof_date = Some (asof_or_today asof_date now),
                updated_at = clock w\<rparr>]"
    using io_dim_industry_effects[of prov "asof_or_today asof_date now" now sectors]
      ingest_dim_industry_new_events[OF run, of prov sectors]
    by (cases "dim_industry_effects prov (asof_or_today asof_date now) now sectors") simp
next
  assume run: "force \<or> \<not> already_ingested w ''industry_membership'' ''ALL'' (asof_or_today asof_date now)"
  show "case membership_effects prov (asof_or_today asof_date now) now w of
         (es, rs) \<Rightarrow>
           list_all io_event es \<and>
           new_events w (snd (ingest_membership prov now w asof_date force)) =
             es @ (if rs \<noteq> [] then [Inserted_membership rs] else []) @
             [Inserted_state \<lparr>source = ''yfinance'', target = ''industry_membership'',
                key = ''ALL'', last_ts = None,
                last_asof_date = Some (asof_or_today asof_date now), updated_at = clock w\<rparr>]"
    using io_membership_effects[of prov "asof_or_today asof_date now" now w]
      ingest_membership_new_events[OF run, of prov]
    by (cases "membership_effects prov (asof_or_today asof_date now) now w") simp
next
  obtain es where es:
    "events (snd (ingest_stock_prices prov now w tickers interval overlap_days
        default_lookback_days chunk_size force)) = events w @ es"
    "price_trace interval es"
    using price_run_events[of prov now w tickers interval overlap_days default_lookback_days
        chunk_size force] by blast
  then show "price_trace interval
     (new_events w (snd (ingest_stock_prices prov now w tickers interval overlap_days
                           default_lookback_days chunk_size force)))"
    by (simp add: new_events_append)
next
  show "\<exists>es batch.
      new_events w (snd (ingest_market_cap prov now w tickers asof_date force)) =
        es @ (if batch \<noteq> [] then [Inserted_market_cap batch] else []) \<and>
      list_all cap_loop_event es \<and>
      length (state_writes es) = length batch \<and>
      fst (ingest_market_cap prov now w tickers asof_date force) = length batch"
    using ingest_market_cap_new_events[of w prov now tickers asof_date force] by metis
qed

theorem advance_after_write_witness:
  "\<not> already_ingested ex_store ''dim_industry'' ''ALL'' 300 \<and>
   new_events ex_store
     (snd (ingest_dim_industry ex_down 1000 ex_store [''technology''] (Some 300) False)) =
     [Fetched (Sector ''technology''), Printed (Sector_failed ''technology'' (Exn ''HTTP 404'')),
      Inserted_state \<lparr>source = ''yfinance'', target = ''dim_industry'', key = ''ALL'',
        last_ts = None, last_asof_date = Some 300, updated_at = 10\<rparr>] \<and>
   new_events ex_price_store
     (snd (ingest_stock_prices ex_feed 86400000 ex_price_store [''A'', ''B''] ''1d'' 5 370 50
             False)) =
     [Fetched (Download ''A B'' 95 ''1d''),
      Inserted_prices
        [(8726400, ''A'', ''1d'', Fin 10, Fin 12, Fin 9, Fin 11, Fin 11, 1000, ''yfinance'',
          86400000)],
      Inserted_state \<lparr>source = ''yfinance'', target = ''fact_stock_prices'', key = ''A|1d'',
        last_ts = Some 8726400, last_asof_date = None, updated_at = 1\<rparr>] \<and>
   price_trace ''1d''
     (new_events ex_price_store
        (snd (ingest_stock_prices ex_feed 86400000 ex_price_store [''A'', ''B''] ''1d'' 5 370 50
                False)))"
proof -
  have run: "\<not> already_ingested ex_store ''dim_industry'' ''ALL'' 300"
    by code_simp
  have a: "asof_or_today (Some 300) 1000 = 300" by (simp add: asof_or_today_def)
  have eff: "dim_industry_effects ex_down 300 1000 [''technology''] =
     ([Fetched (Sector ''technology''), Printed (Sector_failed ''technology'' (Exn ''HTTP 404''))], [])"
    by code_simp
  have c: "clock ex_store = 10" by (simp add: ex_store_def)
  from advance_after_write[where force = False and w = ex_store and asof_date = "Some 300"
      and now = 1000 and prov = ex_down and sectors = "[''technology'']"] run
  have 1: "new_events ex_store
     (snd (ingest_dim_industry ex_down 1000 ex_store [''technology''] (Some 300) False)) =
     [Fetched (Sector ''technology''), Printed (Sector_failed ''technology'' (Exn ''HTTP 404'')),
      Inserted_state \<lparr>source = ''yfinance'', target = ''dim_industry'', key = ''ALL'',
        last_ts = None, last_asof_date = Some 300, updated_at = 10\<rparr>]"
    by (simp add: a eff c)
  have 2: "new_events ex_price_store
     (snd (ingest_stock_prices ex_feed 86400000 ex_price_store [''A'', ''B''] ''1d'' 5 370 50
             False)) =
     [Fetched (Download ''A B'' 95 ''1d''),
      Inserted_prices
        [(8726400, ''A'', ''1d'', Fin 10, Fin 12, Fin 9, Fin 11, Fin 11, 1000, ''yfinance'',
          86400000)],
      Inserted_state \<lparr>source = ''yfinance'', target = ''fact_stock_prices'', key = ''A|1d'',
        last_ts = Some 8726400, last_asof_date = None, updated_at = 1\<rparr>]"
    by code_simp
  from advance_after_write[where force = False and w = ex_price_store and now = 86400000
      and prov = ex_feed and interval = "''1d''" and tickers = "[''A'', ''B'']"
      and overlap_days = 5 and default_lookback_days = 370 and chunk_size = 50]
  have 3: "price_trace ''1d''
     (new_events ex_price_store
        (snd (ingest_stock_prices ex_feed 86400000 ex_price_store [''A'', ''B''] ''1d'' 5 370 50
                False)))"
    by blast
  from run 1 2 3 show ?thesis by blast
qed

theorem market_cap_state_before_insert_counterexample:
  "new_events ex_empty (snd (ingest_market_cap ex_up 2000 ex_empty [''AAPL''] (Some 86400) False)) =
     [Fetched (Ticker ''AAPL''),
      Inserted_state \<lparr>source = ''yfinance'', target = ''fact_market_cap'', key = ''AAPL'',
        last_ts = None, last_asof_date = Some 86400, updated_at = 0\<rparr>,
      Inserted_market_cap [(86400, ''AAPL'', Fin 3000, ''USD'', ''yfinance_info'', 2000)]]"
  by code_simp

text \<open>
  C6 (as amended).  For every key, a run with force off writes only state values that are
  greater than or equal to the value recorded for that key before the run: the
  \<open>last_asof_date\<close> written by the dimension, membership and market-cap jobs, and the
  \<open>last_ts\<close> written by the price job.
\<close>

theorem watermark_monotone_without_force:
  "(\<forall>r \<in> set (state_writes
                (new_events w (snd (ingest_dim_industry prov now w sectors asof_date False)))).
      wm_le (snd (get_state w (source r) (target r) (key r))) (last_asof_date r)) \<and>
   (\<forall>r \<in> set (state_writes (new_events w (snd (ingest_membership prov now w asof_date False)))).
      wm_le (snd (get_state w (source r) (target r) (key r))) (last_asof_date r)) \<and>
   (\<forall>r \<in> set (state_writes
                (new_events w (snd (ingest_market_cap prov now w tickers asof_date False)))).
      wm_le (snd (get_state w (source r) (target r) (key r))) (last_asof_date r)) \<and>
   (\<forall>r \<in> set (state_writes
                (new_events w (snd (ingest_stock_prices prov now w tickers interval overlap_days
                                      default_lookback_days chunk_size False)))).
      wm_le (fst (get_state w (source r) (target r) (key r))) (last_ts r))"
proof (intro conjI ballI)
  let ?a = "asof_or_today asof_date now"
  fix r
  assume r: "r \<in> set (state_writes
                (new_events w (snd (ingest_dim_industry prov now w sectors asof_date False))))"
  show "wm_le (snd (get_state w (source r) (target r) (key r))) (last_asof_date r)"
  proof (cases "already_ingested w ''dim_industry'' ''ALL'' ?a")
    case True
    with r show ?thesis
      by (simp add: ingest_dim_industry_skip new_events_self state_writes_simps)
  next
    case False
    then have run: "False \<or> \<not> already_ingested w ''dim_industry'' ''ALL'' ?a" by simp
    have "state_writes (fst (dim_industry_effects prov ?a now sectors)) = []"
      by (rule io_event_no_state[OF io_dim_industry_effects])
    with r have "r = \<lparr>source = ''yfinance'', target = ''dim_industry'', key = ''ALL'',
        last_ts = None, last_asof_date = Some ?a, updated_at = clock w\<rparr>"
      unfolding ingest_dim_industry_new_events[OF run]
      by (simp add: state_writes_simps split: if_splits)
    then show ?thesis using not_ingested_wm_le[OF False] by simp
  qed
next
  let ?a = "asof_or_today asof_date now"
  fix r
  assume r: "r \<in> set (state_writes
                (new_events w (snd (ingest_membership prov now w asof_date False))))"
  show "wm_le (snd (get_state w (source r) (target r) (key r))) (last_asof_date r)"
  proof (cases "already_ingested w ''industry_membership'' ''ALL'' ?a")
    case True
    with r show ?thesis
      by (simp add: ingest_membership_skip new_events_self state_writes_simps)
  next
    case False
    then have run: "False \<or> \<not> already_ingested w ''industry_membership'' ''ALL'' ?a" by simp
    have "state_writes (fst (membership_effects prov ?a now w)) = []"
      by (rule io_event_no_state[OF io_membership_effects])
    with r have "r = \<lparr>source = ''yfinance'', target = ''industry_membership'', key = ''ALL'',
        last_ts = None, last_asof_date = Some ?a, updated_at = clock w\<rparr>"
      unfolding ingest_membership_new_events[OF run]
      by (simp add: state_writes_simps split: if_splits)
    then show ?thesis using not_ingested_wm_le[OF False] by simp
  qed
next
  let ?a = "asof_or_today asof_date now"
  fix r
  assume r: "r \<in> set (state_writes
                (new_events w (snd (ingest_market_cap prov now w tickers asof_date False))))"
  obtain es batch where es:
    "new_events w (snd (ingest_market_cap prov now w tickers asof_date False)) =
       es @ (if batch \<noteq> [] then [Inserted_market_cap batch] else [])"
    "list_all (cap_written prov ?a False w) (state_writes es)"
    using ingest_market_cap_new_events[of w prov now tickers asof_date False] by metis
  from r have "r \<in> set (state_writes es)"
    unfolding es(1) by (simp add: state_writes_simps split: if_splits)
  with es(2) have "cap_written prov ?a False w r" by (simp add: list_all_iff)
  then show "wm_le (snd (get_state w (source r) (target r) (key r))) (last_asof_date r)"
    using not_ingested_wm_le[of w "''fact_market_cap''" "key r" ?a]
    by (simp add: cap_written_def)
next
  fix r
  assume r: "r \<in> set (state_writes
                (new_events w (snd (ingest_stock_prices prov now w tickers interval overlap_days
                                      default_lookback_days chunk_size False))))"
  obtain es where es:
    "events (snd (ingest_stock_prices prov now w tickers interval overlap_days
        default_lookback_days chunk_size False)) = events w @ es"
    "list_all (above_watermark w interval) es"
    using price_run_events[of prov now w tickers interval overlap_days default_lookback_days
        chunk_size False] by blast
  from r have "Inserted_state r \<in> set es"
    by (simp add: new_events_append[OF es(1)] state_writes_mem)
  with es(2) have "above_watermark w interval (Inserted_state r)" by (simp add: list_all_iff)
  then show "wm_le (fst (get_state w (source r) (target r) (key r))) (last_ts r)"
    by (simp add: above_watermark_def wm_lt_le)
qed

theorem watermark_monotone_without_force_witness:
  "snd (get_state ex_store ''yfinance'' ''dim_industry'' ''ALL'') = Some 200 \<and>
   state_writes
     (new_events ex_store
        (snd (ingest_dim_industry ex_down 1000 ex_store [''technology''] (Some 300) False))) =
     [\<lparr>source = ''yfinance'', target = ''dim_industry'', key = ''ALL'', last_ts = None,
       last_asof_date = Some 300, updated_at = 10\<rparr>] \<and>
   list_all (\<lambda>r. wm_le (snd (get_state ex_store (source r) (target r) (key r))) (last_asof_date r))
     (state_writes
        (new_events ex_store
           (snd (ingest_dim_industry ex_down 1000 ex_store [''technology''] (Some 300) False)))) \<and>
   fst (get_state ex_price_store ''yfinance'' ''fact_stock_prices'' ''A|1d'') = Some 8640000 \<and>
   state_writes
     (new_events ex_price_store
        (snd (ingest_stock_prices ex_feed 86400000 ex_price_store [''A'', ''B''] ''1d'' 5 370 50
                False))) =
     [\<lparr>source = ''yfinance'', target = ''fact_stock_prices'', key = ''A|1d'',
       last_ts = Some 8726400, last_asof_date = None, updated_at = 1\<rparr>] \<and>
   list_all (\<lambda>r. wm_le (fst (get_state ex_price_store (source r) (target r) (key r))) (last_ts r))
     (state_writes
        (new_events ex_price_store
           (snd (ingest_stock_prices ex_feed 86400000 ex_price_store [''A'', ''B''] ''1d'' 5 370 50
                   False))))"
proof -
  have 1: "snd (get_state ex_store ''yfinance'' ''dim_industry'' ''ALL'') = Some 200"
    by code_simp
  have 2: "state_writes
     (new_events ex_store
        (snd (ingest_dim_industry ex_down 1000 ex_store [''technology''] (Some 300) False))) =
     [\<lparr>source = ''yfinance'', target = ''dim_industry'', key = ''ALL'', last_ts = None,
       last_asof_date = Some 300, updated_at = 10\<rparr>]"
    by code_simp
  have 4: "fst (get_state ex_price_store ''yfinance'' ''fact_stock_prices'' ''A|1d'') = Some 8640000"
    by code_simp
  have 5: "state_writes
     (new_events ex_price_store
        (snd (ingest_stock_prices ex_feed 86400000 ex_price_store [''A'', ''B''] ''1d'' 5 370 50
                False))) =
     [\<lparr>source = ''yfinance'', target = ''fact_stock_prices'', key = ''A|1d'',
       last_ts = Some 8726400, last_asof_date = None, updated_at = 1\<rparr>]"
    by code_simp
  note t1 = watermark_monotone_without_force[where w = ex_store and prov = ex_down and now = 1000
      and sectors = "[''technology'']" and asof_date = "Some 300"]
  note t2 = watermark_monotone_without_force[where w = ex_price_store and prov = ex_feed
      and now = 86400000 and tickers = "[''A'', ''B'']" and interval = "''1d''"
      and overlap_days = 5 and default_lookback_days = 370 and chunk_size = 50]
  from t1 have 3: "list_all (\<lambda>r. wm_le (snd (get_state ex_store (source r) (target r) (key r))) (last_asof_date r))
     (state_writes
        (new_events ex_store
           (snd (ingest_dim_industry ex_down 1000 ex_store [''technology''] (Some 300) False))))"
    unfolding list_all_iff by blast
  from t2 have 6: "list_all (\<lambda>r. wm_le (fst (get_state ex_price_store (source r) (target r) (key r))) (last_ts r))
     (state_writes
        (new_events ex_price_store
           (snd (ingest_stock_prices ex_feed 86400000 ex_price_store [''A'', ''B''] ''1d'' 5 370 50
                   False))))"
    unfolding list_all_iff by blast
  from 1 2 3 4 5 6 show ?thesis by blast
qed

theorem forced_run_lowers_watermark_counterexample:
  "get_state ex_store ''yfinance'' ''dim_industry'' ''ALL'' = (None, Some 200) \<and>
   state_writes
     (new_events ex_store
        (snd (ingest_dim_industry ex_down 1000 ex_store [''technology''] (Some 150) True))) =
     [\<lparr>source = ''yfinance'', target = ''dim_industry'', key = ''ALL'', last_ts = None,
       last_asof_date = Some 150, updated_at = 10\<rparr>] \<and>
   get_state (snd (ingest_dim_industry ex_down 1000 ex_store [''technology''] (Some 150) True))
     ''yfinance'' ''dim_industry'' ''ALL'' = (None, Some 150)"
  by code_simp







end
